theory Spec2Isabelle
  imports Complex_Main "HOL-Library.Word" "HOL-Library.AList" "HOL-Library.Multiset"
begin

chapter \<open>Androsiq: the Samsung forensic analysis tool (src/Samsung/main.py)\<close>

text \<open>
  A shallow embedding of the extraction and correlation logic of \<^verbatim>\<open>main.py\<close>:
  the cell sanitizer inside \<^verbatim>\<open>ForensicDatabase.query\<close>, the analyzers' fallback
  chains, the load worker, the timeline and the export.  The Tk widgets, the file
  dialogs and the JSON writer are outside the model.
\<close>

section \<open>Python values\<close>

text \<open>
  A Python \<^verbatim>\<open>str\<close> is modelled by its UTF-8 encoding, one \<^typ>\<open>char\<close> per byte (a lone
  surrogate, which Python allows inside a \<^verbatim>\<open>str\<close>, by its three-byte generalised
  encoding).  Substring tests and the removal of an ASCII character act on the
  encoding as they act on the code points.  A \<^verbatim>\<open>bytes\<close> object is a list of bytes;
  an \<^verbatim>\<open>int\<close> is unbounded; a \<^verbatim>\<open>float\<close> is the rational number it denotes.
\<close>

type_synonym byte = "8 word"

text \<open>What \<^verbatim>\<open>sqlite3\<close> hands back for one cell: None, int, float, str or bytes.\<close>

datatype sql_value =
    RNull
  | RInt int
  | RReal rat
  | RText string
  | RBlob "byte list"

text \<open>What a record of a loaded dataset holds for one column: None, int, float or str.\<close>

datatype pyvalue =
    PNone
  | PInt int
  | PFloat rat
  | PStr string

text \<open>The exceptions that leave the program's own \<^verbatim>\<open>try\<close> blocks.\<close>

datatype py_exception = TypeError | NameError

text \<open>A \<^verbatim>\<open>dict\<close> with \<^verbatim>\<open>str\<close> keys, in insertion order; \<^const>\<open>AList.update\<close> is
  \<^verbatim>\<open>d[k] = v\<close>: an existing key keeps its place, a new key goes last.\<close>

type_synonym pydict = "(string \<times> pyvalue) list"

definition dict_get :: "pydict \<Rightarrow> string \<Rightarrow> pyvalue \<Rightarrow> pyvalue" where
  \<comment> \<open>\<^verbatim>\<open>d.get(k, default)\<close>\<close>
  "dict_get d k dflt = (case map_of d k of Some v \<Rightarrow> v | None \<Rightarrow> dflt)"

definition dict_has :: "pydict \<Rightarrow> string \<Rightarrow> bool" where
  \<comment> \<open>\<^verbatim>\<open>k in d\<close>\<close>
  "dict_has d k = (map_of d k \<noteq> None)"

subsection \<open>Decimal and hexadecimal text\<close>

definition digit_char :: "nat \<Rightarrow> char" where
  "digit_char d = ''0123456789'' ! d"

function str_nat :: "nat \<Rightarrow> string" where
  \<comment> \<open>\<^verbatim>\<open>str(n)\<close> for \<^verbatim>\<open>n >= 0\<close>\<close>
  "str_nat n = (if n < 10 then [digit_char n] else str_nat (n div 10) @ [digit_char (n mod 10)])"
  by pat_completeness auto
termination
  by (relation "measure id") auto

declare str_nat.simps [simp del]

definition digit_val :: "char \<Rightarrow> nat" where
  "digit_val c = length (takeWhile (\<lambda>d. d \<noteq> c) ''0123456789'')"

definition nat_of_decimal :: "string \<Rightarrow> nat" where
  \<comment> \<open>the number a string of decimal digits denotes\<close>
  "nat_of_decimal s = foldl (\<lambda>a c. 10 * a + digit_val c) 0 s"

definition hex_digit :: "nat \<Rightarrow> char" where
  "hex_digit d = ''0123456789abcdef'' ! d"

definition is_hex_char :: "char \<Rightarrow> bool" where
  "is_hex_char c = (c \<in> set ''0123456789abcdef'')"

definition hex_of_byte :: "byte \<Rightarrow> string" where
  "hex_of_byte b = [hex_digit (unat b div 16), hex_digit (unat b mod 16)]"

definition bytes_hex :: "byte list \<Rightarrow> string" where
  \<comment> \<open>\<^verbatim>\<open>value.hex()\<close>: two lower-case digits for each byte\<close>
  "bytes_hex bs = concat (map hex_of_byte bs)"

subsection \<open>UTF-8\<close>

definition is_cont :: "byte \<Rightarrow> bool" where
  "is_cont b = (0x80 \<le> unat b \<and> unat b \<le> 0xBF)"

text \<open>The strict decoder of \<^verbatim>\<open>bytes.decode('utf-8')\<close>: no overlong form, no surrogate,
  nothing above U+10FFFF, no truncated sequence.\<close>

fun utf8_valid :: "byte list \<Rightarrow> bool" where
  "utf8_valid [] = True"
| "utf8_valid (b # bs) =
    (let n = unat b in
     if n < 0x80 then utf8_valid bs
     else if 0xC2 \<le> n \<and> n \<le> 0xDF then
       (case bs of c1 # r \<Rightarrow> is_cont c1 \<and> utf8_valid r | _ \<Rightarrow> False)
     else if 0xE0 \<le> n \<and> n \<le> 0xEF then
       (case bs of c1 # c2 # r \<Rightarrow>
          (if n = 0xE0 then 0xA0 \<le> unat c1 \<and> unat c1 \<le> 0xBF
           else if n = 0xED then 0x80 \<le> unat c1 \<and> unat c1 \<le> 0x9F
           else is_cont c1) \<and> is_cont c2 \<and> utf8_valid r
        | _ \<Rightarrow> False)
     else if 0xF0 \<le> n \<and> n \<le> 0xF4 then
       (case bs of c1 # c2 # c3 # r \<Rightarrow>
          (if n = 0xF0 then 0x90 \<le> unat c1 \<and> unat c1 \<le> 0xBF
           else if n = 0xF4 then 0x80 \<le> unat c1 \<and> unat c1 \<le> 0x8F
           else is_cont c1) \<and> is_cont c2 \<and> is_cont c3 \<and> utf8_valid r
        | _ \<Rightarrow> False)
     else False)"

definition bytes_decode_utf8 :: "byte list \<Rightarrow> string option" where
  \<comment> \<open>\<^verbatim>\<open>value.decode('utf-8')\<close>; \<^const>\<open>None\<close> is UnicodeDecodeError\<close>
  "bytes_decode_utf8 bs = (if utf8_valid bs then Some (map (\<lambda>b. char_of (unat b)) bs) else None)"

definition str_encode_utf8 :: "string \<Rightarrow> byte list option" where
  \<comment> \<open>\<^verbatim>\<open>value.encode('utf-8')\<close>; \<^const>\<open>None\<close> is UnicodeEncodeError (a lone surrogate)\<close>
  "str_encode_utf8 s =
     (let bs = map (\<lambda>c. of_char c) s in if utf8_valid bs then Some bs else None)"

section \<open>ForensicDatabase.query: the cell sanitizer\<close>

text \<open>Lines 62 to 82: the body of the loop over the keys of one row.\<close>

definition sanitize_value :: "sql_value \<Rightarrow> pyvalue" where
  "sanitize_value v =
     (case v of
        RBlob bs \<Rightarrow>
          (case bytes_decode_utf8 bs of
             Some s \<Rightarrow> PStr s
           | None \<Rightarrow>
               if length bs > 100
               then PStr (''<Binary data: '' @ str_nat (length bs) @ '' bytes>'')
               else PStr (''<Hex: '' @ take 50 (bytes_hex bs)
                          @ (if length (bytes_hex bs) > 50 then ''...'' else '''') @ ''>''))
      | RText s \<Rightarrow>
          (case str_encode_utf8 s of
             Some _ \<Rightarrow> PStr s
           | None \<Rightarrow> PStr ''<Encoding error in text data>'')
      | RNull \<Rightarrow> PNone
      | RInt i \<Rightarrow> PInt i
      | RReal x \<Rightarrow> PFloat x)"

section \<open>The SQLite store\<close>

text \<open>
  The store is outside the program.  A database answers a SELECT statement with its
  rows, each a list of columns (name and cell, in column order), or with an error;
  it answers the listing of \<^verbatim>\<open>sqlite_master\<close> with the table names or an error.
  Every statement of the program is a SELECT, so the answers do not change.  Every
  failure \<^verbatim>\<open>sqlite3\<close> raises from \<^verbatim>\<open>connect\<close>, \<^verbatim>\<open>execute\<close> and \<^verbatim>\<open>fetchall\<close> is a
  \<^verbatim>\<open>sqlite3.Error\<close>; the text is its message.
\<close>

datatype sqlite_error = Sqlite3Error string

type_synonym sql_row = "(string \<times> sql_value) list"

record database =
  db_execute :: "string \<Rightarrow> sqlite_error + sql_row list"
  db_tables :: "sqlite_error + string list"

record db_connection =
  conn_db :: database
  conn_closed :: bool

text \<open>The library and the host: \<^verbatim>\<open>str.lower\<close>, \<^verbatim>\<open>sqlite3.connect\<close>,
  \<^verbatim>\<open>datetime.fromtimestamp\<close> (the naive local time, in microseconds, of a number of
  seconds since the epoch; \<^const>\<open>None\<close> where it raises), \<^verbatim>\<open>datetime.fromisoformat\<close>
  and the text of a float.\<close>

datatype datetime = Naive int | Aware int

record py_env =
  str_lower :: "string \<Rightarrow> string"
  sqlite3_connect :: "string \<Rightarrow> sqlite_error + database"
  fromtimestamp :: "rat \<Rightarrow> int option"
  fromisoformat :: "string \<Rightarrow> datetime option"
  float_str :: "rat \<Rightarrow> string"

subsection \<open>Strings\<close>

fun str_in :: "string \<Rightarrow> string \<Rightarrow> bool" where
  \<comment> \<open>\<^verbatim>\<open>needle in haystack\<close>\<close>
  "str_in needle [] = (needle = [])"
| "str_in needle (c # cs) = (take (length needle) (c # cs) = needle \<or> str_in needle cs)"

definition ascii_lower_char :: "char \<Rightarrow> char" where
  "ascii_lower_char c =
     (case map_of (zip ''ABCDEFGHIJKLMNOPQRSTUVWXYZ'' ''abcdefghijklmnopqrstuvwxyz'') c of
        Some l \<Rightarrow> l
      | None \<Rightarrow> c)"

definition is_ascii :: "string \<Rightarrow> bool" where
  "is_ascii s = list_all (\<lambda>c. \<not> digit7 c) s"

definition basename :: "string \<Rightarrow> string" where
  \<comment> \<open>\<^verbatim>\<open>os.path.basename\<close>: what follows the last slash\<close>
  "basename p = rev (takeWhile (\<lambda>c. c \<noteq> CHR ''/'') (rev p))"

subsection \<open>sqlite3.Row\<close>

text \<open>\<^verbatim>\<open>row[key]\<close> is the cell of the first column whose name is the key, or is the key
  but for the case of ASCII letters.\<close>

definition equal_ignore_case :: "string \<Rightarrow> string \<Rightarrow> bool" where
  "equal_ignore_case l r =
     (l = r \<or> (is_ascii l \<and> is_ascii r \<and> map ascii_lower_char l = map ascii_lower_char r))"

definition row_get :: "sql_row \<Rightarrow> string \<Rightarrow> sql_value option" where
  "row_get row key = map_option snd (find (\<lambda>col. equal_ignore_case key (fst col)) row)"

text \<open>Lines 60 to 84: the dict of one row.  The keys are the row's own column names, so
  the lookup finds a cell.\<close>

definition sanitize_row :: "sql_row \<Rightarrow> pydict" where
  "sanitize_row row =
     foldl (\<lambda>row_dict key.
              case row_get row key of
                Some v \<Rightarrow> AList.update key (sanitize_value v) row_dict
              | None \<Rightarrow> row_dict)
       [] (map fst row)"

section \<open>ForensicDatabase\<close>

record analyzer =
  db_path :: string
  db_name :: string
  connection :: "db_connection option"

definition ForensicDatabase :: "string \<Rightarrow> analyzer" where
  "ForensicDatabase path = \<lparr>db_path = path, db_name = basename path, connection = None\<rparr>"

definition connect :: "py_env \<Rightarrow> analyzer \<Rightarrow> bool \<times> analyzer" where
  "connect env a =
     (case sqlite3_connect env (db_path a) of
        Inr db \<Rightarrow> (True, a\<lparr>connection := Some \<lparr>conn_db = db, conn_closed = False\<rparr>\<rparr>)
      | Inl e \<Rightarrow> (False, a))"

definition disconnect :: "analyzer \<Rightarrow> analyzer" where
  "disconnect a =
     (case connection a of
        Some c \<Rightarrow> a\<lparr>connection := Some (c\<lparr>conn_closed := True\<rparr>)\<rparr>
      | None \<Rightarrow> a)"

text \<open>
  The methods that read the store return, beside their result, the statements they
  handed to \<^verbatim>\<open>cursor.execute\<close>, in order.  A closed connection refuses the cursor
  with a \<^verbatim>\<open>sqlite3.Error\<close> before any statement runs.
\<close>

definition tables_sql :: string where
  "tables_sql = ''SELECT name FROM sqlite_master WHERE type='table';''"

definition get_tables :: "analyzer \<Rightarrow> (sqlite_error + string list) \<times> string list" where
  "get_tables a =
     (case connection a of
        None \<Rightarrow> (Inr [], [])
      | Some c \<Rightarrow>
          if conn_closed c then (Inl (Sqlite3Error ''Cannot operate on a closed database.''), [])
          else (db_tables (conn_db c), [tables_sql]))"

definition query :: "analyzer \<Rightarrow> string \<Rightarrow> pydict list \<times> string list" where
  "query a sql =
     (case connection a of
        None \<Rightarrow> ([], [])
      | Some c \<Rightarrow>
          if conn_closed c then ([], [])
          else (case db_execute (conn_db c) sql of
                  Inr rows \<Rightarrow> (map sanitize_row rows, [sql])
                | Inl e \<Rightarrow> ([], [sql])))"

section \<open>The analyzers\<close>

text \<open>Each SQL text is written line by line as in the source, the lines stripped of
  their indentation and joined by one space.\<close>

fun sql_text :: "string list \<Rightarrow> string" where
  "sql_text [] = []"
| "sql_text [l] = l"
| "sql_text (l # ls) = l @ '' '' @ sql_text ls"

definition contacts_sql :: string where
  "contacts_sql =
     sql_text
      [''SELECT'',
       ''raw_contacts._id AS contact_id,'',
       ''name_data.data1 AS name,'',
       ''phone_data.data1 AS phone_number'',
       ''FROM raw_contacts'',
       ''LEFT JOIN data AS name_data'',
       ''ON name_data.raw_contact_id = raw_contacts._id'',
       ''AND name_data.mimetype_id = (SELECT _id FROM mimetypes WHERE mimetype = 'vnd.android.cursor.item/name')'',
       ''LEFT JOIN data AS phone_data'',
       ''ON phone_data.raw_contact_id = raw_contacts._id'',
       ''AND phone_data.mimetype_id = (SELECT _id FROM mimetypes WHERE mimetype = 'vnd.android.cursor.item/phone_v2')'',
       ''ORDER BY name_data.data1'']"

definition contacts_fallback_queries :: "string list" where
  "contacts_fallback_queries =
     [sql_text
       [''SELECT'',
        ''raw_contacts._id AS contact_id,'',
        ''name_data.data1 AS name,'',
        ''phone_data.data1 AS phone_number'',
        ''FROM raw_contacts'',
        ''LEFT JOIN data AS name_data'',
        ''ON name_data.raw_contact_id = raw_contacts._id'',
        ''AND name_data.mimetype_id = (SELECT _id FROM mimetypes WHERE mimetype LIKE '%name%')'',
        ''LEFT JOIN data AS phone_data'',
        ''ON phone_data.raw_contact_id = raw_contacts._id'',
        ''AND phone_data.mimetype_id = (SELECT _id FROM mimetypes WHERE mimetype LIKE '%phone%')'',
        ''ORDER BY name_data.data1'',
        ''LIMIT 1000''],
      sql_text
       [''SELECT'',
        ''_id AS contact_id,'',
        ''display_name AS name,'',
        [CHR 0x27, CHR 0x27] @ '' AS phone_number'',
        ''FROM raw_contacts'',
        ''WHERE display_name IS NOT NULL'',
        ''ORDER BY display_name'',
        ''LIMIT 1000''],
      sql_text
       [''SELECT'',
        ''raw_contact_id AS contact_id,'',
        ''data1 AS name,'',
        ''data2 AS phone_number'',
        ''FROM data'',
        ''WHERE mimetype_id IN (SELECT _id FROM mimetypes WHERE mimetype LIKE '%name%' OR mimetype LIKE '%phone%')'',
        ''ORDER BY data1'',
        ''LIMIT 1000'']]"

definition calls_sql :: string where
  "calls_sql =
     sql_text
      [''SELECT number, type, date, duration, name,'',
       ''CASE type'',
       ''WHEN 1 THEN 'Incoming'' @ [CHR 0x27],
       ''WHEN 2 THEN 'Outgoing'' @ [CHR 0x27],
       ''WHEN 3 THEN 'Missed'' @ [CHR 0x27],
       ''ELSE 'Unknown'' @ [CHR 0x27],
       ''END as call_type'',
       ''FROM calls'',
       ''ORDER BY date DESC'']"

definition messages_sql :: string where
  "messages_sql =
     sql_text
      [''SELECT address, body, date, type, read,'',
       ''CASE type'',
       ''WHEN 1 THEN 'Received'' @ [CHR 0x27],
       ''WHEN 2 THEN 'Sent'' @ [CHR 0x27],
       ''ELSE 'Unknown'' @ [CHR 0x27],
       ''END as message_type'',
       ''FROM sms'',
       ''ORDER BY date DESC'',
       ''LIMIT 1000'']"

definition possible_queries :: "string list" where
  "possible_queries =
     [sql_text
       [''SELECT url, title, visit_count as visits, last_visit_time as date,'',
        ''CASE WHEN url IN (SELECT url FROM bookmarks) THEN 1 ELSE 0 END as bookmark'',
        ''FROM urls'',
        ''WHERE url IS NOT NULL'',
        ''ORDER BY last_visit_time DESC'',
        ''LIMIT 1000''],
      sql_text
       [''SELECT url, title, visits, date, bookmark'',
        ''FROM bookmarks'',
        ''WHERE url IS NOT NULL'',
        ''ORDER BY date DESC'',
        ''LIMIT 1000''],
      sql_text
       [''SELECT * FROM urls LIMIT 100''],
      sql_text
       [''SELECT * FROM history LIMIT 100'']]"

definition downloads_sql :: string where
  "downloads_sql =
     sql_text
      [''SELECT'',
       ''downloads.id,'',
       ''downloads_url_chains.url,'',
       ''downloads.target_path,'',
       ''downloads.start_time,'',
       ''downloads.received_bytes,'',
       ''downloads.total_bytes,'',
       ''downloads.state,'',
       ''CASE downloads.state'',
       ''WHEN 1 THEN 'Complete'' @ [CHR 0x27],
       ''WHEN 2 THEN 'Cancelled'' @ [CHR 0x27],
       ''WHEN 3 THEN 'Interrupted'' @ [CHR 0x27],
       ''WHEN 4 THEN 'In Progress'' @ [CHR 0x27],
       ''ELSE 'Unknown'' @ [CHR 0x27],
       ''END as download_status'',
       ''FROM downloads'',
       ''JOIN downloads_url_chains'',
       ''ON downloads.id = downloads_url_chains.id'',
       ''ORDER BY downloads.start_time DESC'']"

definition meta_sql :: string where
  "meta_sql =
     sql_text
      [''SELECT key, value'',
       ''FROM meta'']"

definition events_sql :: string where
  "events_sql =
     sql_text
      [''SELECT title, description, dtstart, dtend,'',
       ''eventLocation, allDay'',
       ''FROM Events'',
       ''ORDER BY dtstart DESC'',
       ''LIMIT 500'']"

definition accounts_sql :: string where
  "accounts_sql =
     sql_text
      [''SELECT'',
       ''name,'',
       ''type,'',
       ''password'',
       ''FROM accounts'',
       ''ORDER BY type, name'']"

definition accounts_fallback_queries :: "string list" where
  "accounts_fallback_queries =
     [sql_text
       [''SELECT * FROM accounts LIMIT 100''],
      sql_text
       [''SELECT a.name, a.type, at.authtoken'',
        ''FROM accounts a'',
        ''LEFT JOIN authtokens at ON a._id = at.accounts_id'',
        ''LIMIT 100'']]"

text \<open>The loop \<^verbatim>\<open>for q in queries: try: results = self.query(q); if results: return
  results; except: continue\<close> of \<^verbatim>\<open>get_contacts\<close>, \<^verbatim>\<open>get_browsing_history\<close> and
  \<^verbatim>\<open>get_accounts\<close>.  \<^const>\<open>None\<close>: the loop ended without returning.\<close>

fun run_queries :: "analyzer \<Rightarrow> string list \<Rightarrow> pydict list option \<times> string list" where
  "run_queries a [] = (None, [])"
| "run_queries a (q # qs) =
     (let r = query a q in
      if fst r \<noteq> [] then (Some (fst r), snd r)
      else (let rest = run_queries a qs in (fst rest, snd r @ snd rest)))"

definition get_contacts :: "analyzer \<Rightarrow> pydict list \<times> string list" where
  "get_contacts a =
     (let r = query a contacts_sql in
      if fst r \<noteq> [] then r
      else (case run_queries a contacts_fallback_queries of
              (Some results, t) \<Rightarrow> (results, snd r @ t)
            | (None, t) \<Rightarrow> ([], snd r @ t)))"

definition get_call_history :: "analyzer \<Rightarrow> pydict list \<times> string list" where
  "get_call_history a = query a calls_sql"

definition get_messages :: "analyzer \<Rightarrow> pydict list \<times> string list" where
  "get_messages a = query a messages_sql"

definition table_keywords :: "string list" where
  "table_keywords = [''url'', ''history'', ''visit'', ''bookmark'']"

definition scan_sql :: "string \<Rightarrow> string" where
  "scan_sql table = ''SELECT * FROM '' @ table @ '' LIMIT 50''"

definition has_url_key :: "py_env \<Rightarrow> pydict list \<Rightarrow> bool" where
  \<comment> \<open>\<^verbatim>\<open>any('url' in str(key).lower() for key in results[0].keys())\<close>\<close>
  "has_url_key env results =
     (case results of
        [] \<Rightarrow> False
      | first # _ \<Rightarrow> list_ex (\<lambda>key. str_in ''url'' (str_lower env key)) (map fst first))"

text \<open>Lines 244 to 251: the loop over the tables.\<close>

fun scan_tables :: "py_env \<Rightarrow> analyzer \<Rightarrow> string list \<Rightarrow> pydict list \<times> string list" where
  "scan_tables env a [] = ([], [])"
| "scan_tables env a (table # tables) =
     (if list_ex (\<lambda>keyword. str_in keyword (str_lower env table)) table_keywords then
        (let r = query a (scan_sql table) in
         if fst r \<noteq> [] \<and> has_url_key env (fst r) then r
         else (let rest = scan_tables env a tables in (fst rest, snd r @ snd rest)))
      else scan_tables env a tables)"

definition get_browsing_history ::
  "py_env \<Rightarrow> analyzer \<Rightarrow> (sqlite_error + pydict list) \<times> string list" where
  "get_browsing_history env a =
     (case run_queries a possible_queries of
        (Some results, t) \<Rightarrow> (Inr results, t)
      | (None, t) \<Rightarrow>
          (case get_tables a of
             (Inl e, t1) \<Rightarrow> (Inl e, t @ t1)
           | (Inr tables, t1) \<Rightarrow>
               (let r = scan_tables env a tables in (Inr (fst r), t @ t1 @ snd r))))"

definition get_chrome_downloads :: "analyzer \<Rightarrow> pydict list \<times> string list" where
  "get_chrome_downloads a = query a downloads_sql"

definition get_meta_data :: "analyzer \<Rightarrow> pydict list \<times> string list" where
  "get_meta_data a = query a meta_sql"

definition get_events :: "analyzer \<Rightarrow> pydict list \<times> string list" where
  "get_events a = query a events_sql"

definition get_accounts :: "analyzer \<Rightarrow> pydict list \<times> string list" where
  "get_accounts a =
     (let r = query a accounts_sql in
      if fst r \<noteq> [] then r
      else (case run_queries a accounts_fallback_queries of
              (Some res, t) \<Rightarrow> (res, snd r @ t)
            | (None, t) \<Rightarrow> ([], snd r @ t)))"

definition generic_sql :: "string \<Rightarrow> string" where
  "generic_sql table = ''SELECT * FROM '' @ table @ '' LIMIT 100''"

section \<open>ForensicApp: the load worker\<close>

text \<open>
  What the worker hands to the Tk main loop through \<^verbatim>\<open>root.after\<close>, to be called there
  later: the call of \<^verbatim>\<open>_update_ui_after_load(db_file, db_name, data, data_type)\<close>, or
  the lambda of line 596,
  \<^verbatim>\<open>lambda: self.status_label.config(text=f"Error loading {db_name}: {str(e)}")\<close>.
  The lambda holds its free variables \<^verbatim>\<open>db_name\<close> and \<^verbatim>\<open>e\<close> by reference and reads
  them when it is called; it is recorded with \<^verbatim>\<open>db_name\<close> and with what \<^verbatim>\<open>e\<close> is
  bound to once the worker has left the handler (\<^const>\<open>None\<close>: unbound).
\<close>

datatype ui_call =
    UpdateAfterLoad string string "pydict list" string
  | StatusLambda string "sqlite_error option"

text \<open>Python ends a clause \<^verbatim>\<open>except Exception as e:\<close> by deleting \<^verbatim>\<open>e\<close>.\<close>

definition leave_except_clause :: "sqlite_error option \<Rightarrow> sqlite_error option" where
  "leave_except_clause e = None"

record load_result =
  lr_analyzer :: analyzer
  lr_calls :: "ui_call list"
  lr_trace :: "string list"

definition loaded ::
  "analyzer \<Rightarrow> string \<Rightarrow> string \<Rightarrow> pydict list \<times> string list \<Rightarrow> string \<Rightarrow> load_result" where
  \<comment> \<open>a branch that got its data: the update is scheduled, then line 593 disconnects\<close>
  "loaded a db_file name r data_type =
     \<lparr>lr_analyzer = disconnect a,
      lr_calls = [UpdateAfterLoad db_file name (fst r) data_type],
      lr_trace = snd r\<rparr>"

definition not_loaded :: "analyzer \<Rightarrow> string list \<Rightarrow> load_result" where
  \<comment> \<open>a branch that scheduled nothing, then line 593\<close>
  "not_loaded a t = \<lparr>lr_analyzer = disconnect a, lr_calls = [], lr_trace = t\<rparr>"

definition raised :: "analyzer \<Rightarrow> string \<Rightarrow> sqlite_error \<Rightarrow> string list \<Rightarrow> load_result" where
  \<comment> \<open>lines 595 and 596: the handler binds \<^verbatim>\<open>e\<close>, schedules the lambda, and the clause
      ends; line 593 was not reached\<close>
  "raised a name e t =
     \<lparr>lr_analyzer = a,
      lr_calls = [StatusLambda name (leave_except_clause (Some e))],
      lr_trace = t\<rparr>"

definition load_database_thread :: "py_env \<Rightarrow> string \<Rightarrow> string \<Rightarrow> string \<Rightarrow> load_result" where
  "load_database_thread env file_path db_file name =
     (let lowered = str_lower env db_file;
          c = connect env (ForensicDatabase file_path);
          a = snd c
      in
      if str_in ''contacts'' lowered then
        (if fst c then loaded a db_file name (get_contacts a) ''contacts'' else not_loaded a [])
      else if str_in ''calllog'' lowered then
        (if fst c then loaded a db_file name (get_call_history a) ''calls'' else not_loaded a [])
      else if str_in ''mmssms'' lowered then
        (if fst c then loaded a db_file name (get_messages a) ''messages'' else not_loaded a [])
      else if str_in ''browser'' lowered \<or> str_in ''chrome'' lowered then
        (if fst c then
           (if str_in ''downloads'' lowered then
              loaded a db_file name (get_chrome_downloads a) ''downloads''
            else if str_in ''meta'' lowered then
              loaded a db_file name (get_meta_data a) ''meta''
            else
              (case get_browsing_history env a of
                 (Inr data, t) \<Rightarrow> loaded a db_file name (data, t) ''browser''
               | (Inl e, t) \<Rightarrow> raised a name e t))
         else not_loaded a [])
      else if str_in ''calendar'' lowered then
        (if fst c then loaded a db_file name (get_events a) ''calendar'' else not_loaded a [])
      else if str_in ''accounts'' lowered then
        (if fst c then loaded a db_file name (get_accounts a) ''accounts'' else not_loaded a [])
      else
        (if fst c then
           (case get_tables a of
              (Inr tables, t) \<Rightarrow>
                (case tables of
                   [] \<Rightarrow> not_loaded a t
                 | first # _ \<Rightarrow>
                     (let r = query a (generic_sql first)
                      in loaded a db_file name (fst r, t @ snd r) ''generic'')) 
            | (Inl e, t) \<Rightarrow> raised a name e t)
         else not_loaded a []))"

subsection \<open>The row limit of a statement\<close>

text \<open>
  A statement whose text holds no comment opener (\<^verbatim>\<open>--\<close> or \<^verbatim>\<open>/*\<close>) and ends in
  \<^verbatim>\<open>LIMIT n\<close> is refused by SQLite or answered with at most \<open>n\<close> rows; a SELECT with no
  LIMIT clause is answered with every row.  \<^const>\<open>None\<close>: the text gives no such bound.
  (A comment opener can hide the clause: lines 247 and 590 put the table name into
  the text as it is, and \<^verbatim>\<open>SELECT * FROM visits-- LIMIT 50\<close> has no limit.)
\<close>

fun has_comment_opener :: "string \<Rightarrow> bool" where
  "has_comment_opener (a # b # cs) =
     ((a = CHR ''-'' \<and> b = CHR ''-'') \<or> (a = CHR ''/'' \<and> b = CHR ''*'')
      \<or> has_comment_opener (b # cs))"
| "has_comment_opener cs = False"

definition is_space :: "char \<Rightarrow> bool" where
  "is_space c = (c \<in> set [CHR '' '', CHR ''\<newline>'', CHR 0x09, CHR 0x0D])"

definition is_digit :: "char \<Rightarrow> bool" where
  "is_digit c = (c \<in> set ''0123456789'')"

definition sql_limit :: "string \<Rightarrow> nat option" where
  "sql_limit sql =
     (let r = dropWhile is_space (rev sql);
          ds = takeWhile is_digit r;
          r1 = dropWhile is_digit r;
          r2 = dropWhile is_space r1
      in if \<not> has_comment_opener sql
            \<and> ds \<noteq> [] \<and> r1 \<noteq> r2 \<and> take 5 r2 = rev ''LIMIT''
            \<and> (case drop 5 r2 of [] \<Rightarrow> True | c # _ \<Rightarrow> is_space c)
         then Some (nat_of_decimal (rev ds))
         else None)"

text \<open>The statements the analyzers hold as constants, in the order of the source.\<close>

definition fixed_queries :: "string list" where
  "fixed_queries =
     contacts_sql # contacts_fallback_queries @ [calls_sql, messages_sql] @ possible_queries
     @ [downloads_sql, meta_sql, events_sql, accounts_sql] @ accounts_fallback_queries"

section \<open>ForensicApp: the dataset store\<close>

text \<open>\<^verbatim>\<open>self.loaded_databases\<close>: a dict from the display name to
  \<^verbatim>\<open>{'data': ..., 'type': ..., 'count': ...}\<close>.\<close>

record dataset =
  info_data :: "pydict list"
  info_type :: string
  info_count :: nat

type_synonym dataset_store = "(string \<times> dataset) list"

definition update_ui_after_load ::
  "dataset_store \<Rightarrow> string \<Rightarrow> pydict list \<Rightarrow> string \<Rightarrow> dataset_store" where
  \<comment> \<open>lines 607 to 611, the store written by the closure \<^verbatim>\<open>update\<close>\<close>
  "update_ui_after_load dbs name data data_type =
     AList.update name \<lparr>info_data = data, info_type = data_type, info_count = length data\<rparr> dbs"

text \<open>The store after a sequence of completed loads \<^verbatim>\<open>(db_name, data, data_type)\<close>.\<close>

definition store_after :: "(string \<times> pydict list \<times> string) list \<Rightarrow> dataset_store" where
  "store_after loads =
     foldl (\<lambda>dbs l. update_ui_after_load dbs (fst l) (fst (snd l)) (snd (snd l))) [] loads"

section \<open>ForensicApp.update_timeline\<close>

subsection \<open>Python numbers and their text\<close>

definition truthy :: "pyvalue \<Rightarrow> bool" where
  \<comment> \<open>\<^verbatim>\<open>if timestamp:\<close>\<close>
  "truthy v = (case v of PNone \<Rightarrow> False | PInt n \<Rightarrow> n \<noteq> 0 | PFloat x \<Rightarrow> x \<noteq> 0 | PStr s \<Rightarrow> s \<noteq> [])"

definition number_of :: "pyvalue \<Rightarrow> rat option" where
  \<comment> \<open>\<^verbatim>\<open>isinstance(timestamp, (int, float))\<close>, with the number\<close>
  "number_of v = (case v of PInt n \<Rightarrow> Some (of_int n) | PFloat x \<Rightarrow> Some x | _ \<Rightarrow> None)"

definition str_int :: "int \<Rightarrow> string" where
  "str_int i = (if i < 0 then ''-'' @ str_nat (nat (- i)) else str_nat (nat i))"

definition py_str :: "py_env \<Rightarrow> pyvalue \<Rightarrow> string" where
  \<comment> \<open>\<^verbatim>\<open>str(v)\<close>, also what an f-string prints for \<^verbatim>\<open>{v}\<close>\<close>
  "py_str env v =
     (case v of PNone \<Rightarrow> ''None'' | PInt n \<Rightarrow> str_int n | PFloat x \<Rightarrow> float_str env x | PStr s \<Rightarrow> s)"

text \<open>
  \<^verbatim>\<open>timestamp / 1000\<close> is a float: the double nearest to the quotient, ties to the even
  mantissa.  It is taken only of a number above \<open>10^12\<close>, so the quotient is above
  \<open>10^9\<close>: for a \<open>q \<ge> 1\<close> with \<open>2^k \<le> q < 2^(k+1)\<close> the doubles around \<open>q\<close> are the
  multiples of \<open>2^k / 2^52\<close>.  \<^const>\<open>None\<close>: the quotient of an int is beyond the
  doubles, which raises OverflowError.
\<close>

function bit_length :: "int \<Rightarrow> nat" where
  "bit_length n = (if n \<le> 0 then 0 else Suc (bit_length (n div 2)))"
  by pat_completeness auto
termination
  by (relation "measure nat") auto

declare bit_length.simps [simp del]

definition round_half_even :: "rat \<Rightarrow> int" where
  "round_half_even x =
     (let f = \<lfloor>x\<rfloor>; d = x - of_int f
      in if d < 1 / 2 then f else if 1 / 2 < d then f + 1 else if even f then f else f + 1)"

definition round_double :: "rat \<Rightarrow> rat option" where
  "round_double q =
     (let k = bit_length \<lfloor>q\<rfloor> - 1;
          m = round_half_even (q * 2 ^ 52 / 2 ^ k);
          r = of_int m * 2 ^ k / 2 ^ 52
      in if r < 2 ^ 1024 then Some r else None)"

definition true_div_1000 :: "rat \<Rightarrow> rat option" where
  "true_div_1000 x = round_double (x / 1000)"

subsection \<open>One record\<close>

text \<open>Lines 690 to 707: the timestamp and the description of a record.\<close>

definition extract_timestamp :: "py_env \<Rightarrow> dataset \<Rightarrow> pydict \<Rightarrow> pyvalue \<times> string" where
  "extract_timestamp env info rcd =
     (if dict_has rcd ''date'' then
        (dict_get rcd ''date'' PNone,
         if info_type info = ''calls'' then
           ''Call: '' @ py_str env (dict_get rcd ''call_type'' (PStr ''Unknown''))
           @ '' - '' @ py_str env (dict_get rcd ''number'' (PStr ''Unknown''))
         else if info_type info = ''messages'' then
           ''SMS: '' @ py_str env (dict_get rcd ''message_type'' (PStr ''Unknown''))
           @ '' - '' @ py_str env (dict_get rcd ''address'' (PStr ''Unknown''))
         else '''')
      else if dict_has rcd ''dtstart'' then
        (dict_get rcd ''dtstart'' PNone,
         ''Calendar: '' @ py_str env (dict_get rcd ''title'' (PStr ''No title'')))
      else if dict_has rcd ''lastmod'' then
        (dict_get rcd ''lastmod'' PNone,
         ''Download: '' @ py_str env (dict_get rcd ''title'' (PStr ''Unknown file'')))
      else if dict_has rcd ''start_time'' then
        (dict_get rcd ''start_time'' PNone,
         ''Download: ''
         @ py_str env (dict_get rcd ''target_path'' (dict_get rcd ''url'' (PStr ''Unknown file'')))
         @ '' ('' @ py_str env (dict_get rcd ''download_status'' (PStr ''Unknown'')) @ '')'')
      else (PNone, ''''))"

text \<open>Lines 712 to 717, inside the \<^verbatim>\<open>try\<close>.  \<^const>\<open>None\<close>: an exception, which the bare
  \<^verbatim>\<open>except\<close> of line 720 answers with \<^verbatim>\<open>continue\<close>.\<close>

definition to_datetime :: "py_env \<Rightarrow> pyvalue \<Rightarrow> datetime option" where
  "to_datetime env timestamp =
     (case number_of timestamp of
        Some x \<Rightarrow>
          (if x > 1000000000000 then
             (case true_div_1000 x of
                Some s \<Rightarrow> map_option Naive (fromtimestamp env s)
              | None \<Rightarrow> None)
           else map_option Naive (fromtimestamp env x))
      | None \<Rightarrow> fromisoformat env (removeAll (CHR ''Z'') (py_str env timestamp)))"

text \<open>Lines 709 to 721: the record's instant.  \<^const>\<open>None\<close>: the timestamp is falsy, or the
  conversion raised and line 721 went on to the next record.\<close>

definition normalize_timestamp :: "py_env \<Rightarrow> pyvalue \<Rightarrow> datetime option" where
  "normalize_timestamp env timestamp =
     (if truthy timestamp then to_datetime env timestamp else None)"

type_synonym event = "datetime \<times> string \<times> string"

definition record_event :: "py_env \<Rightarrow> string \<Rightarrow> dataset \<Rightarrow> pydict \<Rightarrow> event option" where
  \<comment> \<open>lines 689 to 721: the event one record appends, if any\<close>
  "record_event env name info rcd =
     (let x = extract_timestamp env info rcd in
      case normalize_timestamp env (fst x) of
        Some dt \<Rightarrow> Some (dt, snd x, name)
      | None \<Rightarrow> None)"

subsection \<open>The timeline\<close>

definition dataset_events :: "py_env \<Rightarrow> string \<Rightarrow> dataset \<Rightarrow> event list" where
  \<comment> \<open>the inner loop, \<^verbatim>\<open>for record in data[:100]\<close>\<close>
  "dataset_events env name info =
     List.map_filter (record_event env name info) (take 100 (info_data info))"

definition collect_events :: "py_env \<Rightarrow> dataset_store \<Rightarrow> event list" where
  \<comment> \<open>the outer loop, \<^verbatim>\<open>for db_name, info in self.loaded_databases.items()\<close>\<close>
  "collect_events env dbs = concat (map (\<lambda>entry. dataset_events env (fst entry) (snd entry)) dbs)"

text \<open>
  \<^verbatim>\<open>timeline_events.sort(key=lambda x: x[0], reverse=True)\<close>.  Python's sort is stable,
  and with \<^verbatim>\<open>reverse=True\<close> it still keeps equal keys in their first order: it
  reverses the list, sorts it, and reverses the result.  Two naive datetimes compare
  by their wall-clock time, two aware ones by their instant; comparing a naive with
  an aware one raises TypeError, which a sort of a list that holds both cannot avoid.
\<close>

definition is_naive :: "datetime \<Rightarrow> bool" where
  "is_naive dt = (case dt of Naive _ \<Rightarrow> True | Aware _ \<Rightarrow> False)"

definition micros :: "datetime \<Rightarrow> int" where
  "micros dt = (case dt of Naive n \<Rightarrow> n | Aware n \<Rightarrow> n)"

definition event_key :: "event \<Rightarrow> int" where
  "event_key e = micros (fst e)"

definition sort_events :: "event list \<Rightarrow> py_exception + event list" where
  "sort_events evs =
     (if list_all (\<lambda>e. is_naive (fst e)) evs \<or> list_all (\<lambda>e. \<not> is_naive (fst e)) evs
      then Inr (rev (sort_key event_key (rev evs)))
      else Inl TypeError)"

definition update_timeline :: "py_env \<Rightarrow> dataset_store \<Rightarrow> py_exception + event list" where
  \<comment> \<open>the events whose lines the timeline shows, \<^verbatim>\<open>timeline_events[:200]\<close>\<close>
  "update_timeline env dbs =
     (case sort_events (collect_events env dbs) of
        Inr timeline_events \<Rightarrow> Inr (take 200 timeline_events)
      | Inl e \<Rightarrow> Inl e)"

section \<open>ForensicApp: the callbacks in the main loop\<close>

text \<open>The body of the lambda of line 596: the text it sets on the status label.  It
  reads \<^verbatim>\<open>e\<close> first; an unbound \<^verbatim>\<open>e\<close> raises NameError and the label is not touched.\<close>

definition run_status_lambda :: "string \<Rightarrow> sqlite_error option \<Rightarrow> py_exception + string" where
  "run_status_lambda name e =
     (case e of
        Some (Sqlite3Error msg) \<Rightarrow> Inr (''Error loading '' @ name @ '': '' @ msg)
      | None \<Rightarrow> Inl NameError)"

text \<open>
  The main loop calls what the worker scheduled: the store after the call, and the
  status text the call sets, or the exception it raises before setting one.  The
  closure \<^verbatim>\<open>update\<close> of lines 600 to 618 writes the store, refreshes the views, of
  which \<^verbatim>\<open>update_timeline\<close> can raise, and then sets the text of line 618.
\<close>

definition run_ui_call ::
  "py_env \<Rightarrow> dataset_store \<Rightarrow> ui_call \<Rightarrow> dataset_store \<times> (py_exception + string)" where
  "run_ui_call env dbs call =
     (case call of
        UpdateAfterLoad db_file name data data_type \<Rightarrow>
          (let dbs' = update_ui_after_load dbs name data data_type in
           case update_timeline env dbs' of
             Inr shown \<Rightarrow>
               (dbs', Inr (''Loaded '' @ name @ '': '' @ str_nat (length data) @ '' records''))
           | Inl exn \<Rightarrow> (dbs', Inl exn))
      | StatusLambda name e \<Rightarrow> (dbs, run_status_lambda name e))"

section \<open>ForensicApp.export_data\<close>

record export_entry =
  record_count :: nat
  data_type :: string
  records :: "pydict list"

record export_doc =
  export_date :: string
  device_info :: string
  databases :: "(string \<times> export_entry) list"

definition export_databases :: "dataset_store \<Rightarrow> (string \<times> export_entry) list" where
  \<comment> \<open>lines 757 to 762\<close>
  "export_databases dbs =
     foldl (\<lambda>out entry.
              AList.update (fst entry)
                \<lparr>record_count = info_count (snd entry),
                 data_type = info_type (snd entry),
                 records = take 500 (info_data (snd entry))\<rparr> out)
       [] dbs"

text \<open>The object handed to \<^verbatim>\<open>json.dump\<close> once the dialog has given a path, for the
  date text \<open>now\<close>; \<^const>\<open>None\<close> when the store is empty and the method returns after
  its warning.\<close>

definition export_data :: "string \<Rightarrow> dataset_store \<Rightarrow> export_doc option" where
  "export_data now dbs =
     (if dbs = [] then None
      else Some \<lparr>export_date = now, device_info = ''Samsung Galaxy S22'',
                 databases = export_databases dbs\<rparr>)"

section \<open>The adaptive query protocol, in the words of the specification\<close>

text \<open>Section 4.2: a candidate is accepted iff it returns at least one row; the
  candidates run in order; the rows of the first accepted one are returned and no
  further candidate runs; if none is accepted the result is empty.\<close>

definition spec_accepted :: "analyzer \<Rightarrow> string \<Rightarrow> bool" where
  "spec_accepted a q = (fst (query a q) \<noteq> [])"

definition statements_run :: "analyzer \<Rightarrow> string list \<Rightarrow> string list" where
  \<comment> \<open>what running these candidates hands to the store\<close>
  "statements_run a qs = concat (map (\<lambda>q. snd (query a q)) qs)"

definition spec_resolution :: "analyzer \<Rightarrow> string list \<Rightarrow> pydict list \<times> string list" where
  "spec_resolution a candidates =
     (case find (spec_accepted a) candidates of
        Some q \<Rightarrow>
          (fst (query a q),
           statements_run a (takeWhile (\<lambda>c. \<not> spec_accepted a c) candidates @ [q]))
      | None \<Rightarrow> ([], statements_run a candidates))"

text \<open>The scan of the table names: a table is tried when its lower-cased name holds
  one of the keywords, and accepted when its rows are not empty and a column name of
  the first row, lower-cased, holds \<^verbatim>\<open>url\<close>.\<close>

definition scan_accepted :: "py_env \<Rightarrow> analyzer \<Rightarrow> string \<Rightarrow> bool" where
  "scan_accepted env a table =
     (list_ex (\<lambda>keyword. str_in keyword (str_lower env table)) table_keywords
      \<and> fst (query a (scan_sql table)) \<noteq> []
      \<and> has_url_key env (fst (query a (scan_sql table))))"

text \<open>Section 4.2 on the last resort: the result contains a column named \<^verbatim>\<open>url\<close>,
  compared without regard to case.\<close>

definition spec_column_named_url :: "py_env \<Rightarrow> pydict list \<Rightarrow> bool" where
  "spec_column_named_url env results =
     (case results of
        [] \<Rightarrow> False
      | first # _ \<Rightarrow> list_ex (\<lambda>key. str_lower env key = ''url'') (map fst first))"

text \<open>Section 4.3 on a non-numeric raw value: the string without a trailing \<^verbatim>\<open>Z\<close>.\<close>

definition spec_strip_trailing_Z :: "string \<Rightarrow> string" where
  "spec_strip_trailing_Z s = (if s \<noteq> [] \<and> last s = CHR ''Z'' then butlast s else s)"

text \<open>Section 4.3: the timestamp fields, in the order of their priority.\<close>

definition timestamp_fields :: "string list" where
  "timestamp_fields = [''date'', ''dtstart'', ''lastmod'', ''start_time'']"

section \<open>A host and some stores\<close>

text \<open>A host whose local time is UTC.  Its \<^verbatim>\<open>str.lower\<close> is given on ASCII text and its
  float text for whole numbers.  Its \<^verbatim>\<open>fromisoformat\<close> is given at the two well-formed
  strings used below; at the malformed \<^verbatim>\<open>2023-11-14T22:13:Z20\<close>, also used below, it
  raises.  The examples apply them to nothing else.\<close>

definition ascii_lower :: "string \<Rightarrow> string" where
  "ascii_lower s = map ascii_lower_char s"

definition utc_fromtimestamp :: "rat \<Rightarrow> int option" where
  \<comment> \<open>rounded to the microsecond; from 0001-01-02, since CPython looks one day back
      for a fold, to the end of the year 9999\<close>
  "utc_fromtimestamp s =
     (let us = round_half_even (s * 1000000)
      in if - 62135510400000000 \<le> us \<and> us \<le> 253402300799999999 then Some us else None)"

definition iso_excerpt :: "string \<Rightarrow> datetime option" where
  "iso_excerpt =
     map_of [(''2023-11-14T22:13:20'', Naive 1700000000000000),
             (''2023-11-14T22:13:20+00:00'', Aware 1700000000000000)]"

definition whole_float_str :: "rat \<Rightarrow> string" where
  "whole_float_str x = str_int \<lfloor>x\<rfloor> @ ''.0''"

definition opened :: "string \<Rightarrow> database \<Rightarrow> analyzer" where
  \<comment> \<open>an analyzer after its \<^verbatim>\<open>connect()\<close> returned True\<close>
  "opened path db =
     \<lparr>db_path = path, db_name = basename path,
      connection = Some \<lparr>conn_db = db, conn_closed = False\<rparr>\<rparr>"

text \<open>A contacts store without the \<^verbatim>\<open>mimetypes\<close> table: only the flat listing of
  \<^verbatim>\<open>raw_contacts\<close>, the second fallback, has rows.\<close>

definition flat_contacts_db :: database where
  "flat_contacts_db =
     \<lparr>db_execute = (\<lambda>sql.
        if sql = contacts_fallback_queries ! 1
        then Inr [[(''contact_id'', RInt 1), (''name'', RText ''Ana''), (''phone_number'', RText '''')]]
        else Inl (Sqlite3Error ''no such table: mimetypes'')),
      db_tables = Inr [''raw_contacts'', ''data'']\<rparr>"

text \<open>A browser store with none of the tables the fixed statements name: \<^verbatim>\<open>visits\<close>
  has no URL column, \<^verbatim>\<open>my_urls\<close> has one.\<close>

definition two_tables_db :: database where
  "two_tables_db =
     \<lparr>db_execute = (\<lambda>sql.
        if sql = ''SELECT * FROM visits LIMIT 50''
        then Inr [[(''id'', RInt 1), (''title'', RText ''Home'')]]
        else if sql = ''SELECT * FROM my_urls LIMIT 50''
        then Inr [[(''url'', RText ''http://example.org/'')]]
        else Inl (Sqlite3Error ''no such table'')),
      db_tables = Inr [''visits'', ''my_urls'']\<rparr>"

text \<open>A browser store whose only table, \<^verbatim>\<open>visits\<close>, has the column \<^verbatim>\<open>page_url\<close>.\<close>

definition page_url_db :: database where
  "page_url_db =
     \<lparr>db_execute = (\<lambda>sql.
        if sql = ''SELECT * FROM visits LIMIT 50''
        then Inr [[(''page_url'', RText ''http://example.org/'')]]
        else Inl (Sqlite3Error ''no such table'')),
      db_tables = Inr [''visits'']\<rparr>"

text \<open>A file that is not an SQLite database: \<^verbatim>\<open>sqlite3.connect\<close> opens it, and every
  statement then fails.\<close>

definition not_a_database :: database where
  "not_a_database =
     \<lparr>db_execute = (\<lambda>sql. Inl (Sqlite3Error ''file is not a database'')),
      db_tables = Inl (Sqlite3Error ''file is not a database'')\<rparr>"

definition evidence_files :: "string \<Rightarrow> sqlite_error + database" where
  "evidence_files path =
     (if path = ''/evidence/contacts2.db'' then Inr flat_contacts_db
      else if path = ''/evidence/History.db'' then Inr two_tables_db
      else if path = ''/evidence/notes.txt'' then Inr not_a_database
      else Inl (Sqlite3Error ''unable to open database file''))"

definition utc_host :: py_env where
  "utc_host =
     \<lparr>str_lower = ascii_lower,
      sqlite3_connect = evidence_files,
      fromtimestamp = utc_fromtimestamp,
      fromisoformat = iso_excerpt,
      float_str = whole_float_str\<rparr>"

text \<open>A store after two loads: two calls, the first dated in milliseconds and the
  second in seconds, and a calendar event at the instant of the first call.\<close>

definition example_store :: dataset_store where
  "example_store =
     store_after
       [(''Call Log'',
         [[(''number'', PStr ''555''), (''date'', PInt 1700000000000),
           (''call_type'', PStr ''Incoming'')],
          [(''number'', PStr ''777''), (''date'', PInt 1700000100),
           (''call_type'', PStr ''Missed'')]],
         ''calls''),
        (''Calendar'',
         [[(''title'', PStr ''Dentist''), (''dtstart'', PStr ''2023-11-14T22:13:20Z'')]],
         ''calendar'')]"

section \<open>Properties of the sanitizer\<close>

lemma length_bytes_hex: "length (bytes_hex bs) = 2 * length bs"
  by (induction bs) (simp_all add: bytes_hex_def hex_of_byte_def)

lemma is_hex_char_hex_digit: "d < 16 \<Longrightarrow> is_hex_char (hex_digit d)"
  unfolding is_hex_char_def hex_digit_def by (rule nth_mem) simp

lemma unat_byte_div_16: "unat (b :: byte) div 16 < 16"
proof -
  have "unat b < 256"
    using unsigned_less [of b] by simp
  then show ?thesis by simp
qed

lemma hex_chars_bytes_hex: "list_all is_hex_char (bytes_hex bs)"
  by (induction bs)
     (simp_all add: bytes_hex_def hex_of_byte_def is_hex_char_hex_digit unat_byte_div_16)

lemma digit_val_digit_char: "d < 10 \<Longrightarrow> digit_val (digit_char d) = d"
proof -
  have "list_all (\<lambda>d. digit_val (digit_char d) = d) [0..<10]"
    by code_simp
  then show "d < 10 \<Longrightarrow> digit_val (digit_char d) = d"
    by (simp add: list_all_iff)
qed

lemma nat_of_decimal_snoc: "nat_of_decimal (s @ [c]) = 10 * nat_of_decimal s + digit_val c"
  by (simp add: nat_of_decimal_def)

lemma nat_of_decimal_str_nat: "nat_of_decimal (str_nat n) = n"
proof (induction n rule: str_nat.induct)
  case (1 n)
  show ?case
  proof (cases "n < 10")
    case True
    then show ?thesis
      by (subst str_nat.simps) (simp add: nat_of_decimal_def digit_val_digit_char)
  next
    case False
    then have "nat_of_decimal (str_nat n) = 10 * (n div 10) + n mod 10"
      by (subst str_nat.simps) (simp add: nat_of_decimal_snoc "1.IH" digit_val_digit_char)
    then show ?thesis by simp
  qed
qed

text \<open>
  C2.  A bytes cell that does not decode as UTF-8 becomes, when it is longer than 100
  bytes, the marker \<^verbatim>\<open><Binary data: N bytes>\<close> whose N is the decimal text of the exact
  length; otherwise the marker \<^verbatim>\<open><Hex: ...>\<close> holding the first \<open>min 50 (2 * len)\<close>
  hexadecimal characters of the bytes, followed by \<^verbatim>\<open>...\<close> exactly when the full
  hexadecimal text, of length \<open>2 * len\<close>, is longer than 50.
\<close>

theorem sanitize_undecodable_bytes:
  "bytes_decode_utf8 bs = None \<Longrightarrow>
     sanitize_value (RBlob bs) =
       PStr (if length bs > 100
             then ''<Binary data: '' @ str_nat (length bs) @ '' bytes>''
             else ''<Hex: '' @ take 50 (bytes_hex bs)
                  @ (if 2 * length bs > 50 then ''...'' else '''') @ ''>'')
     \<and> nat_of_decimal (str_nat (length bs)) = length bs
     \<and> length (take 50 (bytes_hex bs)) = min 50 (2 * length bs)
     \<and> list_all is_hex_char (take 50 (bytes_hex bs))"
proof -
  assume undecodable: "bytes_decode_utf8 bs = None"
  have marker: "sanitize_value (RBlob bs) =
       PStr (if length bs > 100
             then ''<Binary data: '' @ str_nat (length bs) @ '' bytes>''
             else ''<Hex: '' @ take 50 (bytes_hex bs)
                  @ (if 2 * length bs > 50 then ''...'' else '''') @ ''>'')"
    using undecodable by (simp add: sanitize_value_def length_bytes_hex)
  have digits: "length (take 50 (bytes_hex bs)) = min 50 (2 * length bs)"
    by (simp add: length_bytes_hex min.commute)
  have "list_all is_hex_char (bytes_hex bs)"
    by (rule hex_chars_bytes_hex)
  then have hexes: "list_all is_hex_char (take 50 (bytes_hex bs))"
    by (auto simp: list_all_iff dest: in_set_takeD)
  from marker digits hexes show ?thesis
    by (simp add: nat_of_decimal_str_nat)
qed

theorem sanitize_undecodable_bytes_witness:
  "bytes_decode_utf8 [0xFF, 0x00] = None
   \<and> sanitize_value (RBlob [0xFF, 0x00]) = PStr ''<Hex: ff00>''"
proof -
  have undecodable: "bytes_decode_utf8 [0xFF, 0x00] = None"
    by (simp add: bytes_decode_utf8_def)
  have "bytes_hex [0xFF, 0x00] = ''ff00''"
    by (simp add: bytes_hex_def hex_of_byte_def hex_digit_def)
  with sanitize_undecodable_bytes [OF undecodable] undecodable show ?thesis
    by simp
qed

section \<open>The fallback chains\<close>

lemma query_failed:
  "connection a = Some c \<Longrightarrow> db_execute (conn_db c) sql = Inl e \<Longrightarrow> fst (query a sql) = []"
  by (simp add: query_def)

lemma run_queries_resolution:
  "run_queries a qs =
     (case find (spec_accepted a) qs of
        Some q \<Rightarrow> (Some (fst (query a q)),
                   statements_run a (takeWhile (\<lambda>c. \<not> spec_accepted a c) qs @ [q]))
      | None \<Rightarrow> (None, statements_run a qs))"
  by (induction qs) (auto simp: spec_accepted_def statements_run_def Let_def split: option.splits)

lemma spec_resolution_Cons:
  "spec_resolution a (q # qs) =
     (if fst (query a q) \<noteq> [] then query a q
      else (fst (spec_resolution a qs), snd (query a q) @ snd (spec_resolution a qs)))"
  by (auto simp: spec_resolution_def spec_accepted_def statements_run_def split: option.splits)

lemma main_then_fallbacks:
  "(let r = query a q in
    if fst r \<noteq> [] then r
    else (case run_queries a qs of
            (Some results, t) \<Rightarrow> (results, snd r @ t)
          | (None, t) \<Rightarrow> ([], snd r @ t)))
   = spec_resolution a (q # qs)"
  unfolding spec_resolution_Cons
  by (auto simp: Let_def run_queries_resolution spec_resolution_def split: option.splits)

lemma get_contacts_resolution:
  "get_contacts a = spec_resolution a (contacts_sql # contacts_fallback_queries)"
  unfolding get_contacts_def by (rule main_then_fallbacks)

lemma get_accounts_resolution:
  "get_accounts a = spec_resolution a (accounts_sql # accounts_fallback_queries)"
  unfolding get_accounts_def by (rule main_then_fallbacks)

lemma get_browsing_history_accepted:
  "find (spec_accepted a) possible_queries = Some q \<Longrightarrow>
     get_browsing_history env a =
       (Inr (fst (spec_resolution a possible_queries)), snd (spec_resolution a possible_queries))"
  by (simp add: get_browsing_history_def run_queries_resolution spec_resolution_def)

lemma get_browsing_history_scan:
  "find (spec_accepted a) possible_queries = None \<Longrightarrow>
     get_browsing_history env a =
       (case get_tables a of
          (Inl e, t1) \<Rightarrow> (Inl e, statements_run a possible_queries @ t1)
        | (Inr tables, t1) \<Rightarrow>
            (Inr (fst (scan_tables env a tables)),
             statements_run a possible_queries @ t1 @ snd (scan_tables env a tables)))"
  by (simp add: get_browsing_history_def run_queries_resolution Let_def
           split: prod.splits sum.splits)

lemma statements_run_opened: "statements_run (opened p db) qs = qs"
  by (induction qs) (simp_all add: statements_run_def query_def opened_def split: sum.splits)

text \<open>
  C1, amended.  For contacts and for accounts the candidates (the main statement, then
  the fallbacks) run in order; a candidate is accepted iff its query returns at least
  one row; the sanitized rows of the first accepted candidate are returned and no
  later candidate runs; a candidate whose statement fails in the store is not accepted
  and no error reaches the caller; with no accepted candidate the result is empty.
  For browsing history the same holds of the four fixed candidates when one of them is
  accepted.  When none is and the tables can be listed, the result is that of the scan
  of the table names, which need not be empty.
\<close>

theorem resolution_protocol:
  "get_contacts a = spec_resolution a (contacts_sql # contacts_fallback_queries)
   \<and> get_accounts a = spec_resolution a (accounts_sql # accounts_fallback_queries)
   \<and> (find (spec_accepted a) possible_queries \<noteq> None \<longrightarrow>
        get_browsing_history env a =
          (Inr (fst (spec_resolution a possible_queries)),
           snd (spec_resolution a possible_queries)))
   \<and> (find (spec_accepted a) possible_queries = None \<and> get_tables a = (Inr tables, t1) \<longrightarrow>
        get_browsing_history env a =
          (Inr (fst (scan_tables env a tables)),
           statements_run a possible_queries @ t1 @ snd (scan_tables env a tables)))
   \<and> (\<forall>c sql e. connection a = Some c \<and> db_execute (conn_db c) sql = Inl e
          \<longrightarrow> \<not> spec_accepted a sql)
   \<and> statements_run (opened p db) qs = qs"
proof (intro conjI impI)
  show "get_contacts a = spec_resolution a (contacts_sql # contacts_fallback_queries)"
    by (rule get_contacts_resolution)
  show "get_accounts a = spec_resolution a (accounts_sql # accounts_fallback_queries)"
    by (rule get_accounts_resolution)
  show "get_browsing_history env a =
          (Inr (fst (spec_resolution a possible_queries)),
           snd (spec_resolution a possible_queries))"
    if "find (spec_accepted a) possible_queries \<noteq> None"
    using that get_browsing_history_accepted [of a _ env] by blast
  show "get_browsing_history env a =
          (Inr (fst (scan_tables env a tables)),
           statements_run a possible_queries @ t1 @ snd (scan_tables env a tables))"
    if "find (spec_accepted a) possible_queries = None \<and> get_tables a = (Inr tables, t1)"
    using that by (simp add: get_browsing_history_scan)
  show "\<forall>c sql e. connection a = Some c \<and> db_execute (conn_db c) sql = Inl e
          \<longrightarrow> \<not> spec_accepted a sql"
    by (simp add: spec_accepted_def query_failed)
  show "statements_run (opened p db) qs = qs"
    by (rule statements_run_opened)
qed

theorem resolution_protocol_witness:
  "get_contacts (opened ''/evidence/contacts2.db'' flat_contacts_db) =
     ([[(''contact_id'', PInt 1), (''name'', PStr ''Ana''), (''phone_number'', PStr '''')]],
      [contacts_sql, contacts_fallback_queries ! 0, contacts_fallback_queries ! 1])"
proof -
  let ?a = "opened ''/evidence/contacts2.db'' flat_contacts_db"
  have protocol: "get_contacts ?a = spec_resolution ?a (contacts_sql # contacts_fallback_queries)"
    using resolution_protocol [of ?a] by blast
  have "spec_resolution ?a (contacts_sql # contacts_fallback_queries) =
     ([[(''contact_id'', PInt 1), (''name'', PStr ''Ana''), (''phone_number'', PStr '''')]],
      [contacts_sql, contacts_fallback_queries ! 0, contacts_fallback_queries ! 1])"
    by code_simp
  with protocol show ?thesis
    by (rule trans)
qed

theorem browsing_result_without_accepted_candidate:
  "run_queries (opened ''/evidence/History.db'' two_tables_db) possible_queries
     = (None, possible_queries)
   \<and> fst (query (opened ''/evidence/History.db'' two_tables_db) (scan_sql ''visits''))
     = [[(''id'', PInt 1), (''title'', PStr ''Home'')]]
   \<and> fst (get_browsing_history utc_host (opened ''/evidence/History.db'' two_tables_db))
     = Inr [[(''url'', PStr ''http://example.org/'')]]"
  by code_simp

section \<open>The scan of the table names\<close>

lemma scan_tables_find:
  "fst (scan_tables env a tables) =
     (case find (scan_accepted env a) tables of
        Some table \<Rightarrow> fst (query a (scan_sql table))
      | None \<Rightarrow> [])"
  by (induction tables) (auto simp: scan_accepted_def Let_def)

lemma has_url_key_Cons:
  "has_url_key env (first # rest) = (\<exists>key \<in> set (map fst first). str_in ''url'' (str_lower env key))"
  by (simp add: has_url_key_def list_ex_iff)

text \<open>
  C6, amended.  In the last resort of the browsing history, the tables whose
  lower-cased name holds one of \<^verbatim>\<open>url\<close>, \<^verbatim>\<open>history\<close>, \<^verbatim>\<open>visit\<close>, \<^verbatim>\<open>bookmark\<close> are
  queried in the order of the listing; a table's result is accepted iff it is not
  empty and some column name of its first row, lower-cased, contains \<^verbatim>\<open>url\<close> as a
  substring; the rows of the first accepted table are returned, and the empty list
  when there is none.
\<close>

theorem table_scan_acceptance:
  "fst (scan_tables env a tables) =
     (case find (scan_accepted env a) tables of
        Some table \<Rightarrow> fst (query a (scan_sql table))
      | None \<Rightarrow> [])
   \<and> scan_accepted env a table =
       (list_ex (\<lambda>keyword. str_in keyword (str_lower env table))
          [''url'', ''history'', ''visit'', ''bookmark'']
        \<and> (case fst (query a (scan_sql table)) of
              [] \<Rightarrow> False
            | first # rest \<Rightarrow> list_ex (\<lambda>key. str_in ''url'' (str_lower env key)) (map fst first)))
   \<and> (find (spec_accepted a) possible_queries = None \<and> fst (get_tables a) = Inr tables
        \<longrightarrow> fst (get_browsing_history env a) = Inr (fst (scan_tables env a tables)))"
proof -
  have rule: "scan_accepted env a table =
       (list_ex (\<lambda>keyword. str_in keyword (str_lower env table))
          [''url'', ''history'', ''visit'', ''bookmark'']
        \<and> (case fst (query a (scan_sql table)) of
              [] \<Rightarrow> False
            | first # rest \<Rightarrow> list_ex (\<lambda>key. str_in ''url'' (str_lower env key)) (map fst first)))"
    by (cases "fst (query a (scan_sql table))")
       (simp_all add: scan_accepted_def table_keywords_def has_url_key_def)
  have last_resort: "find (spec_accepted a) possible_queries = None \<and> fst (get_tables a) = Inr tables
        \<longrightarrow> fst (get_browsing_history env a) = Inr (fst (scan_tables env a tables))"
    by (cases "get_tables a") (auto simp: get_browsing_history_scan)
  from rule last_resort show ?thesis
    using scan_tables_find [of env a tables] by blast
qed

theorem table_scan_acceptance_witness:
  "fst (scan_tables utc_host (opened ''/evidence/History.db'' two_tables_db) [''visits'', ''my_urls''])
     = [[(''url'', PStr ''http://example.org/'')]]"
proof -
  let ?a = "opened ''/evidence/History.db'' two_tables_db"
  have "find (scan_accepted utc_host ?a) [''visits'', ''my_urls''] = Some ''my_urls''"
    by code_simp
  moreover have "fst (query ?a (scan_sql ''my_urls'')) = [[(''url'', PStr ''http://example.org/'')]]"
    by code_simp
  ultimately show ?thesis
    using table_scan_acceptance [of utc_host ?a "[''visits'', ''my_urls'']"] by simp
qed

theorem scan_accepts_column_not_named_url:
  "fst (get_browsing_history utc_host (opened ''/evidence/History.db'' page_url_db))
     = Inr [[(''page_url'', PStr ''http://example.org/'')]]
   \<and> \<not> spec_column_named_url utc_host [[(''page_url'', PStr ''http://example.org/'')]]"
  by code_simp

section \<open>Row limits\<close>








lemma sql_limit_fixed_queries:
  "map sql_limit fixed_queries =
     [None, Some 1000, Some 1000, Some 1000, None, Some 1000,
      Some 1000, Some 1000, Some 100, Some 100,
      None, None, Some 500, None, Some 100, Some 100]"
  by code_simp




section \<open>The load worker\<close>

text \<open>Every path on which the handler of line 595 does not run ends in line 593: the
  connection, if one was opened, is closed.  The lambda the handler schedules finds
  \<^verbatim>\<open>e\<close> unbound.\<close>

lemma load_worker_disconnects_unless_raised:
  "(\<exists>name. lr_calls (load_database_thread env p f n) = [StatusLambda name None])
   \<or> (case connection (lr_analyzer (load_database_thread env p f n)) of
         None \<Rightarrow> True
       | Some c \<Rightarrow> conn_closed c)"
proof -
  have closed: "case connection (disconnect a) of None \<Rightarrow> True | Some c \<Rightarrow> conn_closed c" for a
    by (simp add: disconnect_def split: option.splits)
  have got: "case connection (lr_analyzer (loaded a f n r t)) of
      None \<Rightarrow> True | Some c \<Rightarrow> conn_closed c" for a f n r t
    using closed [of a] by (simp add: loaded_def)
  have got_nothing: "case connection (lr_analyzer (not_loaded a t)) of
      None \<Rightarrow> True | Some c \<Rightarrow> conn_closed c" for a t
    using closed [of a] by (simp add: not_loaded_def)
  have handler: "\<exists>name. lr_calls (raised a n e t) = [StatusLambda name None]" for a n e t
    by (simp add: raised_def leave_except_clause_def)
  show ?thesis
    unfolding load_database_thread_def Let_def
    by (simp add: got got_nothing handler split: prod.splits sum.splits list.splits)
qed

lemma scheduled_status_lambda_raises:
  "lr_calls (raised a name e t) = [call] \<Longrightarrow> snd (run_ui_call env dbs call) = Inl NameError"
  by (auto simp: raised_def leave_except_clause_def run_ui_call_def run_status_lambda_def)


section \<open>Timestamps\<close>

lemma bit_length_bounds:
  "0 < n \<Longrightarrow> 2 ^ (bit_length n - 1) \<le> n \<and> n < 2 ^ bit_length n"
proof (induction n rule: bit_length.induct)
  case (1 n)
  show ?case
  proof (cases "n div 2 = 0")
    case True
    with "1.prems" have "n = 1" by presburger
    then show ?thesis
      by (simp add: bit_length.simps [of 1] bit_length.simps [of 0])
  next
    case False
    with "1.prems" have pos: "0 < n div 2" by presburger
    from "1.prems" have unfold: "bit_length n = Suc (bit_length (n div 2))"
      by (subst bit_length.simps) simp
    from pos have "0 < bit_length (n div 2)"
      by (subst bit_length.simps) simp
    then obtain j where j: "bit_length (n div 2) = Suc j"
      by (cases "bit_length (n div 2)") simp_all
    from "1.IH" "1.prems" pos j
    have low: "2 ^ j \<le> n div 2" and high: "n div 2 < 2 * 2 ^ j"
      by simp_all
    from low have "2 * 2 ^ j \<le> n" by presburger
    moreover from high have "n < 2 * (2 * 2 ^ j)" by presburger
    ultimately show ?thesis
      by (simp add: unfold j)
  qed
qed

lemma round_half_even_of_int: "round_half_even (of_int i) = i"
  by (simp add: round_half_even_def)

lemma round_half_even_error: "\<bar>of_int (round_half_even x) - x\<bar> \<le> 1 / 2"
proof -
  have "of_int \<lfloor>x\<rfloor> \<le> x" and "x < of_int \<lfloor>x\<rfloor> + 1"
    by linarith+
  then show ?thesis
    by (auto simp: round_half_even_def Let_def)
qed

lemma scale_exact:
  assumes "k \<le> p"
  shows "(of_int i :: rat) * 2 ^ p / 2 ^ k = of_int (i * 2 ^ (p - k))"
proof -
  from assms obtain d where "p = k + d"
    using le_iff_add by blast
  then show ?thesis
    by (simp add: power_add)
qed

lemma scale_inverse:
  assumes "k \<le> p"
  shows "(of_int (i * 2 ^ (p - k)) :: rat) * 2 ^ k / 2 ^ p = of_int i"
proof -
  from assms obtain d where "p = k + d"
    using le_iff_add by blast
  then show ?thesis
    by (simp add: power_add)
qed

text \<open>The quotient is exact when it is a whole number below \<open>2^53\<close>.\<close>

lemma round_double_exact:
  assumes "0 < i" and "i < 2 ^ 53"
  shows "round_double (of_int i) = Some (of_int i)"
proof -
  define k where "k = bit_length i - 1"
  from bit_length_bounds [OF assms(1)] have low: "2 ^ k \<le> i"
    by (simp add: k_def)
  with assms(2) have "(2::int) ^ k < 2 ^ 53" by linarith
  then have "k < 53" by (rule power_less_imp_less_exp [rotated]) simp
  then have k: "k \<le> 52" by simp
  have scaled: "(of_int i :: rat) * 2 ^ 52 / 2 ^ k = of_int (i * 2 ^ (52 - k))"
    using k by (rule scale_exact)
  have unscaled: "(of_int (i * 2 ^ (52 - k)) :: rat) * 2 ^ k / 2 ^ 52 = of_int i"
    using k by (rule scale_inverse)
  have "(of_int i :: rat) < of_int (2 ^ 53)"
    using assms(2) by (simp only: of_int_less_iff)
  also have "\<dots> < 2 ^ 1024" by simp
  finally have small: "(of_int i :: rat) < 2 ^ 1024" .
  show ?thesis
    unfolding round_double_def Let_def floor_of_int k_def [symmetric] scaled
      round_half_even_of_int unscaled
    using small by simp
qed

text \<open>In general the nearest double is off by at most one part in \<open>2^53\<close>.\<close>

lemma round_candidate_error:
  assumes "1 \<le> q"
  shows "\<bar>of_int (round_half_even (q * 2 ^ 52 / 2 ^ (bit_length \<lfloor>q\<rfloor> - 1)))
            * 2 ^ (bit_length \<lfloor>q\<rfloor> - 1) / 2 ^ 52 - q\<bar> \<le> q / 2 ^ 53"
proof -
  define k where "k = bit_length \<lfloor>q\<rfloor> - 1"
  define m where "m = round_half_even (q * 2 ^ 52 / 2 ^ k)"
  define r :: rat where "r = of_int m * 2 ^ k / 2 ^ 52"
  from assms(1) have "0 < \<lfloor>q\<rfloor>" by linarith
  from bit_length_bounds [OF this] have "2 ^ k \<le> \<lfloor>q\<rfloor>"
    by (simp add: k_def)
  then have "(of_int (2 ^ k) :: rat) \<le> of_int \<lfloor>q\<rfloor>"
    by (simp only: of_int_le_iff)
  then have low: "(2::rat) ^ k \<le> q"
    by (simp add: le_floor_iff)
  have "r - q = (of_int m - q * 2 ^ 52 / 2 ^ k) * (2 ^ k / 2 ^ 52)"
    by (simp add: r_def field_simps)
  then have "\<bar>r - q\<bar> = \<bar>of_int m - q * 2 ^ 52 / 2 ^ k\<bar> * \<bar>(2::rat) ^ k / 2 ^ 52\<bar>"
    by (simp only: abs_mult)
  also have "\<bar>(2::rat) ^ k / 2 ^ 52\<bar> = 2 ^ k / 2 ^ 52"
    by (rule abs_of_nonneg) simp
  finally have "\<bar>r - q\<bar> = \<bar>of_int m - q * 2 ^ 52 / 2 ^ k\<bar> * (2 ^ k / 2 ^ 52)" .
  also have "\<dots> \<le> (1 / 2) * (2 ^ k / 2 ^ 52)"
    using round_half_even_error [of "q * 2 ^ 52 / 2 ^ k"]
    by (intro mult_right_mono) (simp_all add: m_def)
  also have "\<dots> = 2 ^ k / 2 ^ 53" by simp
  also have "\<dots> \<le> q / 2 ^ 53"
    using low by (simp add: divide_right_mono)
  finally show ?thesis
    unfolding r_def m_def k_def .
qed

lemma round_double_error:
  assumes "1 \<le> q" and "round_double q = Some r"
  shows "\<bar>r - q\<bar> \<le> q / 2 ^ 53"
proof -
  from assms(2)
  have "r = of_int (round_half_even (q * 2 ^ 52 / 2 ^ (bit_length \<lfloor>q\<rfloor> - 1)))
            * 2 ^ (bit_length \<lfloor>q\<rfloor> - 1) / 2 ^ 52"
    by (auto simp: round_double_def Let_def split: if_splits)
  then show ?thesis
    using round_candidate_error [OF assms(1)] by (simp only:)
qed

text \<open>The division returns for every quotient below \<open>2^1023\<close>.\<close>

lemma round_double_returns:
  assumes "1 \<le> q" and "q < 2 ^ 1023"
  shows "\<exists>r. round_double q = Some r"
proof -
  define c :: rat where
    "c = of_int (round_half_even (q * 2 ^ 52 / 2 ^ (bit_length \<lfloor>q\<rfloor> - 1)))
            * 2 ^ (bit_length \<lfloor>q\<rfloor> - 1) / 2 ^ 52"
  have "\<bar>c - q\<bar> \<le> q / 2 ^ 53"
    unfolding c_def using assms(1) by (rule round_candidate_error)
  moreover from assms(1) have "q / 2 ^ 53 \<le> q"
    by (simp add: field_simps)
  ultimately have "c \<le> 2 * q"
    by linarith
  also from assms(2) have "\<dots> < 2 * 2 ^ 1023"
    by simp
  also have "(2::rat) * 2 ^ 1023 = 2 ^ 1024"
    by simp
  finally have "c < 2 ^ 1024" .
  then have "round_double q = Some c"
    unfolding c_def by (simp add: round_double_def Let_def)
  then show ?thesis ..
qed

lemma normalize_number:
  "number_of v = Some x \<Longrightarrow>
     normalize_timestamp env v =
       (if x = 0 then None
        else if x > 1000000000000 then
          (case true_div_1000 x of
             Some s \<Rightarrow> map_option Naive (fromtimestamp env s)
           | None \<Rightarrow> None)
        else map_option Naive (fromtimestamp env x))"
  by (cases v) (simp_all add: normalize_timestamp_def to_datetime_def truthy_def number_of_def)

lemma normalize_int:
  "normalize_timestamp env (PInt n) =
     (if n = 0 then None
      else if n > 1000000000000 then
        (case true_div_1000 (of_int n) of
           Some s \<Rightarrow> map_option Naive (fromtimestamp env s)
         | None \<Rightarrow> None)
      else map_option Naive (fromtimestamp env (of_int n)))"
proof -
  have "((1000000000000 :: rat) < of_int n) = (1000000000000 < n)"
    using of_int_less_iff [of 1000000000000 n, where ?'a = rat] by (simp only: of_int_numeral)
  then show ?thesis
    by (simp add: normalize_timestamp_def to_datetime_def truthy_def number_of_def)
qed

lemma normalize_text:
  "normalize_timestamp env (PStr s) =
     (if s = [] then None else fromisoformat env (filter (\<lambda>c. c \<noteq> CHR ''Z'') s))"
  by (simp add: normalize_timestamp_def to_datetime_def truthy_def number_of_def py_str_def
        removeAll_filter_not_eq eq_commute)

lemma true_div_exact:
  assumes "1000 \<le> n" and "n < 1000 * 2 ^ 53" and "n mod 1000 = 0"
  shows "true_div_1000 (of_int n) = Some (of_int (n div 1000))"
proof -
  from assms(3) obtain i where n: "n = 1000 * i"
    by (auto simp: mod_eq_0_iff_dvd)
  with assms(1, 2) have "0 < i" and "i < 2 ^ 53"
    by simp_all
  then have "round_double (of_int i) = Some (of_int i)"
    by (rule round_double_exact)
  then show ?thesis
    by (simp add: true_div_1000_def n)
qed

lemma true_div_near:
  assumes "1000 \<le> x" and "true_div_1000 x = Some y"
  shows "\<bar>y - x / 1000\<bar> \<le> x / 1000 / 2 ^ 53"
proof -
  from assms(1) have "1 \<le> x / 1000" by simp
  moreover from assms(2) have "round_double (x / 1000) = Some y"
    by (simp add: true_div_1000_def)
  ultimately show ?thesis
    by (rule round_double_error)
qed

lemma true_div_returns:
  assumes "1000 \<le> x" and "x < 1000 * 2 ^ 1023"
  shows "\<exists>y. true_div_1000 x = Some y \<and> \<bar>y - x / 1000\<bar> \<le> x / 1000 / 2 ^ 53"
proof -
  from assms(1) have one: "1 \<le> x / 1000" by simp
  from assms(2) have "x / 1000 < 2 ^ 1023" by simp
  with one obtain y where y: "round_double (x / 1000) = Some y"
    using round_double_returns by blast
  with one have "\<bar>y - x / 1000\<bar> \<le> x / 1000 / 2 ^ 53"
    by (rule round_double_error)
  with y show ?thesis
    by (simp add: true_div_1000_def)
qed

text \<open>
  C3, amended.  Normalization maps every numeric raw value other than zero to an
  instant: a value strictly greater than \<open>10^12\<close> to the float quotient of the value by
  1000, any other to itself, taken as seconds since the epoch by
  \<^verbatim>\<open>datetime.fromtimestamp\<close>.  The quotient is the nearest double: for every value
  below \<open>1000 * 2^1023\<close> the division returns a number within one part in \<open>2^53\<close> of
  the exact quotient, and the exact quotient when that is a whole number below \<open>2^53\<close>.
  Every non-empty text is mapped to the instant that \<^verbatim>\<open>datetime.fromisoformat\<close> parses
  from it once every \<^verbatim>\<open>Z\<close> in it is removed.  Where the library raises, no instant
  results.  The raw values 1700000000 and 1700000000000 have the same instant.
\<close>

theorem timestamp_normalization:
  "normalize_timestamp env (PInt n) =
     (if n = 0 then None
      else if n > 1000000000000 then
        (case true_div_1000 (of_int n) of
           Some s \<Rightarrow> map_option Naive (fromtimestamp env s)
         | None \<Rightarrow> None)
      else map_option Naive (fromtimestamp env (of_int n)))
   \<and> normalize_timestamp env (PFloat x) =
     (if x = 0 then None
      else if x > 1000000000000 then
        (case true_div_1000 x of
           Some s \<Rightarrow> map_option Naive (fromtimestamp env s)
         | None \<Rightarrow> None)
      else map_option Naive (fromtimestamp env x))
   \<and> normalize_timestamp env (PStr s) =
     (if s = [] then None else fromisoformat env (filter (\<lambda>c. c \<noteq> CHR ''Z'') s))
   \<and> (1000000000000 < n \<and> n < 1000 * 2 ^ 53 \<and> n mod 1000 = 0
        \<longrightarrow> true_div_1000 (of_int n) = Some (of_int (n div 1000)))
   \<and> (1000000000000 < x \<and> x < 1000 * 2 ^ 1023
        \<longrightarrow> (\<exists>z. true_div_1000 x = Some z \<and> \<bar>z - x / 1000\<bar> \<le> x / 1000 / 2 ^ 53))
   \<and> (1000000000000 < x \<and> true_div_1000 x = Some y
        \<longrightarrow> \<bar>y - x / 1000\<bar> \<le> x / 1000 / 2 ^ 53)
   \<and> normalize_timestamp env (PInt 1700000000000) = normalize_timestamp env (PInt 1700000000)"
proof (intro conjI impI)
  show "normalize_timestamp env (PInt n) =
     (if n = 0 then None
      else if n > 1000000000000 then
        (case true_div_1000 (of_int n) of
           Some s \<Rightarrow> map_option Naive (fromtimestamp env s)
         | None \<Rightarrow> None)
      else map_option Naive (fromtimestamp env (of_int n)))"
    by (rule normalize_int)
  show "normalize_timestamp env (PFloat x) =
     (if x = 0 then None
      else if x > 1000000000000 then
        (case true_div_1000 x of
           Some s \<Rightarrow> map_option Naive (fromtimestamp env s)
         | None \<Rightarrow> None)
      else map_option Naive (fromtimestamp env x))"
    by (rule normalize_number) (simp add: number_of_def)
  show "normalize_timestamp env (PStr s) =
     (if s = [] then None else fromisoformat env (filter (\<lambda>c. c \<noteq> CHR ''Z'') s))"
    by (rule normalize_text)
  show "true_div_1000 (of_int n) = Some (of_int (n div 1000))"
    if "1000000000000 < n \<and> n < 1000 * 2 ^ 53 \<and> n mod 1000 = 0"
    using that by (intro true_div_exact) simp_all
  show "\<exists>z. true_div_1000 x = Some z \<and> \<bar>z - x / 1000\<bar> \<le> x / 1000 / 2 ^ 53"
    if "1000000000000 < x \<and> x < 1000 * 2 ^ 1023"
    using that by (intro true_div_returns) simp_all
  show "\<bar>y - x / 1000\<bar> \<le> x / 1000 / 2 ^ 53"
    if "1000000000000 < x \<and> true_div_1000 x = Some y"
    using that by (intro true_div_near) simp_all
  have "true_div_1000 (of_int 1700000000000) = Some (of_int (1700000000000 div 1000))"
    by (rule true_div_exact) simp_all
  then show "normalize_timestamp env (PInt 1700000000000) = normalize_timestamp env (PInt 1700000000)"
    by (simp add: normalize_int)
qed

theorem timestamp_normalization_witness:
  "normalize_timestamp utc_host (PInt 1700000000000) = Some (Naive 1700000000000000)
   \<and> normalize_timestamp utc_host (PInt 1700000000) = Some (Naive 1700000000000000)
   \<and> normalize_timestamp utc_host (PStr ''2023-11-14T22:13:20Z'') = Some (Naive 1700000000000000)
   \<and> true_div_1000 1700000000000 = Some 1700000000
   \<and> (\<exists>z. true_div_1000 1700000000123 = Some z
          \<and> \<bar>z - 1700000000123 / 1000\<bar> \<le> 1700000000123 / 1000 / 2 ^ 53)
   \<and> normalize_timestamp utc_host (PInt 1700000000123) = Some (Naive 1700000000123000)"
proof -
  note facts = timestamp_normalization
    [where env = utc_host and n = 1700000000000 and x = 1700000000123 and s = "[]" and y = 0]
  have seconds: "normalize_timestamp utc_host (PInt 1700000000) = Some (Naive 1700000000000000)"
    by code_simp
  have iso: "normalize_timestamp utc_host (PStr ''2023-11-14T22:13:20Z'') = Some (Naive 1700000000000000)"
    by code_simp
  have fraction: "normalize_timestamp utc_host (PInt 1700000000123) = Some (Naive 1700000000123000)"
    by code_simp
  have same: "normalize_timestamp utc_host (PInt 1700000000000) = normalize_timestamp utc_host (PInt 1700000000)"
    using facts by blast
  have "(1000000000000::int) < 1700000000000 \<and> (1700000000000::int) < 1000 * 2 ^ 53
      \<and> (1700000000000::int) mod 1000 = 0"
    by simp
  with facts have "true_div_1000 (of_int 1700000000000) = Some (of_int (1700000000000 div 1000))"
    by blast
  then have whole: "true_div_1000 1700000000000 = Some 1700000000"
    by simp
  have "(1000000000000::rat) < 1700000000123 \<and> (1700000000123::rat) < 1000 * 2 ^ 1023"
    by simp
  with facts have near: "\<exists>z. true_div_1000 1700000000123 = Some z
          \<and> \<bar>z - 1700000000123 / 1000\<bar> \<le> 1700000000123 / 1000 / 2 ^ 53"
    by blast
  from seconds iso fraction same whole near show ?thesis
    by simp
qed

theorem timestamp_zero_and_inner_Z:
  "normalize_timestamp utc_host (PInt 0) = None
   \<and> fromtimestamp utc_host 0 = Some 0
   \<and> normalize_timestamp utc_host (PStr ''2023-11-14T22:13:Z20'') = Some (Naive 1700000000000000)
   \<and> fromisoformat utc_host (spec_strip_trailing_Z ''2023-11-14T22:13:Z20'') = None"
  by code_simp

section \<open>The timeline\<close>

lemma extract_timestamp_field:
  "fst (extract_timestamp env info rcd) =
     (case find (dict_has rcd) timestamp_fields of
        Some field \<Rightarrow> dict_get rcd field PNone
      | None \<Rightarrow> PNone)"
  by (simp add: extract_timestamp_def timestamp_fields_def)

text \<open>
  C10.  A record whose timestamp field of highest priority (the first of \<^verbatim>\<open>date\<close>,
  \<^verbatim>\<open>dtstart\<close>, \<^verbatim>\<open>lastmod\<close>, \<^verbatim>\<open>start_time\<close> that it has) holds a falsy value appends no
  event; the integer 0, None and the empty string are falsy.  So a record whose
  timestamp is 0, the epoch itself, has no event in the timeline.
\<close>

theorem falsy_timestamp_no_event:
  "(find (dict_has rcd) timestamp_fields = Some field \<and> map_of rcd field = Some v \<and> \<not> truthy v
      \<longrightarrow> record_event env name info rcd = None)
   \<and> \<not> truthy (PInt 0) \<and> \<not> truthy PNone \<and> \<not> truthy (PStr '''')"
proof -
  have "record_event env name info rcd = None"
    if "find (dict_has rcd) timestamp_fields = Some field" and "map_of rcd field = Some v"
      and "\<not> truthy v"
  proof -
    from that(1, 2) have "fst (extract_timestamp env info rcd) = v"
      by (simp add: extract_timestamp_field dict_get_def)
    with that(3) show ?thesis
      by (simp add: record_event_def normalize_timestamp_def Let_def)
  qed
  then show ?thesis
    by (simp add: truthy_def)
qed

theorem falsy_timestamp_no_event_witness:
  "find (dict_has [(''date'', PInt 0), (''number'', PStr ''555'')]) timestamp_fields = Some ''date''
   \<and> record_event utc_host ''Call Log''
        \<lparr>info_data = [[(''date'', PInt 0), (''number'', PStr ''555'')]], info_type = ''calls'',
         info_count = 1\<rparr>
        [(''date'', PInt 0), (''number'', PStr ''555'')] = None"
proof -
  have field: "find (dict_has [(''date'', PInt 0), (''number'', PStr ''555'')]) timestamp_fields
      = Some ''date''"
    by (simp add: timestamp_fields_def dict_has_def)
  have held: "map_of [(''date'', PInt 0), (''number'', PStr ''555'')] ''date'' = Some (PInt 0)"
    by simp
  have falsy: "\<not> truthy (PInt 0)"
    by (simp add: truthy_def)
  from field held falsy show ?thesis
    using falsy_timestamp_no_event
      [of "[(''date'', PInt 0), (''number'', PStr ''555'')]" "''date''" "PInt 0" utc_host]
    by blast
qed

lemma record_event_data:
  "record_event env name (info\<lparr>info_data := d\<rparr>) rcd = record_event env name info rcd"
  by (simp add: record_event_def extract_timestamp_def)

lemma length_dataset_events: "length (dataset_events env name info) \<le> 100"
proof -
  have "length (dataset_events env name info) \<le> length (take 100 (info_data info))"
    unfolding dataset_events_def map_filter_def
    by (simp only: length_map) (rule length_filter_le)
  then show ?thesis by simp
qed

lemma dataset_events_first_100:
  "dataset_events env name (info\<lparr>info_data := take 100 (info_data info)\<rparr>)
     = dataset_events env name info"
proof -
  have "record_event env name (info\<lparr>info_data := take 100 (info_data info)\<rparr>)
      = record_event env name info"
    by (rule ext) (rule record_event_data)
  then show ?thesis
    by (simp add: dataset_events_def)
qed

lemma collect_events_first_100:
  "collect_events env
     (map (\<lambda>entry. (fst entry, (snd entry)\<lparr>info_data := take 100 (info_data (snd entry))\<rparr>)) dbs)
     = collect_events env dbs"
  by (induction dbs) (simp_all add: collect_events_def dataset_events_first_100)

lemma source_of_dataset_events:
  "e \<in> set (dataset_events env name info) \<Longrightarrow> snd (snd e) = name"
  by (auto simp: dataset_events_def map_filter_def record_event_def Let_def split: option.splits)

lemma events_of_other_sources:
  "name \<notin> fst ` set dbs \<Longrightarrow> filter (\<lambda>e. snd (snd e) = name) (collect_events env dbs) = []"
proof (induction dbs)
  case Nil
  then show ?case by (simp add: collect_events_def)
next
  case (Cons entry dbs)
  then have "filter (\<lambda>e. snd (snd e) = name) (collect_events env dbs) = []"
    by simp
  moreover from Cons.prems
  have "filter (\<lambda>e. snd (snd e) = name) (dataset_events env (fst entry) (snd entry)) = []"
    by (auto simp: filter_empty_conv dest: source_of_dataset_events)
  ultimately show ?case
    by (simp add: collect_events_def)
qed

lemma events_of_one_source:
  "distinct (map fst dbs) \<Longrightarrow>
     length (filter (\<lambda>e. snd (snd e) = name) (collect_events env dbs)) \<le> 100"
proof (induction dbs)
  case Nil
  then show ?case by (simp add: collect_events_def)
next
  case (Cons entry dbs)
  show ?case
  proof (cases "fst entry = name")
    case True
    with Cons.prems have "name \<notin> fst ` set dbs" by auto
    then have "filter (\<lambda>e. snd (snd e) = name) (collect_events env dbs) = []"
      by (rule events_of_other_sources)
    moreover have "length (filter (\<lambda>e. snd (snd e) = name) (dataset_events env (fst entry) (snd entry)))
        \<le> 100"
      using length_filter_le [of "\<lambda>e. snd (snd e) = name" "dataset_events env (fst entry) (snd entry)"]
        length_dataset_events [of env "fst entry" "snd entry"]
      by linarith
    ultimately show ?thesis
      by (simp add: collect_events_def)
  next
    case False
    then have "filter (\<lambda>e. snd (snd e) = name) (dataset_events env (fst entry) (snd entry)) = []"
      by (auto simp: filter_empty_conv dest: source_of_dataset_events)
    moreover from Cons have "length (filter (\<lambda>e. snd (snd e) = name) (collect_events env dbs)) \<le> 100"
      by simp
    ultimately show ?thesis
      by (simp add: collect_events_def)
  qed
qed

lemma length_sort_events: "sort_events evs = Inr sorted_evs \<Longrightarrow> length sorted_evs = length evs"
  by (auto simp: sort_events_def split: if_splits)

text \<open>
  C7.  The timeline shows at most 200 events.  Of each dataset only the first 100
  records are read: a dataset appends at most 100 events, cutting every dataset to its
  first 100 records changes nothing, and, the names of the store being distinct, at
  most 100 of the collected events carry one name.  (When the sort raises, no
  timeline is shown.)
\<close>

theorem timeline_bounds:
  "(update_timeline env dbs = Inr shown \<longrightarrow> length shown \<le> 200)
   \<and> length (dataset_events env name info) \<le> 100
   \<and> dataset_events env name (info\<lparr>info_data := take 100 (info_data info)\<rparr>)
       = dataset_events env name info
   \<and> update_timeline env
       (map (\<lambda>entry. (fst entry, (snd entry)\<lparr>info_data := take 100 (info_data (snd entry))\<rparr>)) dbs)
       = update_timeline env dbs
   \<and> (distinct (map fst dbs) \<longrightarrow>
        length (filter (\<lambda>e. snd (snd e) = name) (collect_events env dbs)) \<le> 100)"
proof (intro conjI impI)
  show "length shown \<le> 200" if "update_timeline env dbs = Inr shown"
    using that by (auto simp: update_timeline_def split: sum.splits)
  show "length (dataset_events env name info) \<le> 100"
    by (rule length_dataset_events)
  show "dataset_events env name (info\<lparr>info_data := take 100 (info_data info)\<rparr>)
       = dataset_events env name info"
    by (rule dataset_events_first_100)
  show "update_timeline env
       (map (\<lambda>entry. (fst entry, (snd entry)\<lparr>info_data := take 100 (info_data (snd entry))\<rparr>)) dbs)
       = update_timeline env dbs"
    by (simp only: update_timeline_def collect_events_first_100)
  show "length (filter (\<lambda>e. snd (snd e) = name) (collect_events env dbs)) \<le> 100"
    if "distinct (map fst dbs)"
    using that by (rule events_of_one_source)
qed

lemma example_timeline:
  "update_timeline utc_host example_store =
     Inr [(Naive 1700000100000000, ''Call: Missed - 777'', ''Call Log''),
          (Naive 1700000000000000, ''Call: Incoming - 555'', ''Call Log''),
          (Naive 1700000000000000, ''Calendar: Dentist'', ''Calendar'')]"
  by code_simp

theorem timeline_bounds_witness:
  "update_timeline utc_host example_store =
     Inr [(Naive 1700000100000000, ''Call: Missed - 777'', ''Call Log''),
          (Naive 1700000000000000, ''Call: Incoming - 555'', ''Call Log''),
          (Naive 1700000000000000, ''Calendar: Dentist'', ''Calendar'')]
   \<and> distinct (map fst example_store)
   \<and> length (filter (\<lambda>e. snd (snd e) = ''Call Log'') (collect_events utc_host example_store)) \<le> 100"
proof -
  have names: "distinct (map fst example_store)"
    by code_simp
  with example_timeline show ?thesis
    using timeline_bounds [of utc_host example_store _ "''Call Log''"] by blast
qed

section \<open>The order of the timeline\<close>

lemma sort_events_sorted:
  "sorted_wrt (\<lambda>a b. event_key b \<le> event_key a) (rev (sort_key event_key (rev evs)))"
proof -
  have "sorted_wrt (\<lambda>a b. event_key a \<le> event_key b) (sort_key event_key (rev evs))"
    using sorted_sort_key [of event_key "rev evs"] by (simp add: sorted_map)
  then show ?thesis
    by (simp add: sorted_wrt_rev)
qed

lemma sort_events_stable:
  "filter (\<lambda>e. event_key e = k) (rev (sort_key event_key (rev evs)))
     = filter (\<lambda>e. event_key e = k) evs"
proof -
  have "filter (\<lambda>e. event_key e = k) (rev (sort_key event_key (rev evs)))
      = rev (filter (\<lambda>e. event_key e = k) (sort_key event_key (rev evs)))"
    by (simp only: rev_filter)
  also have "\<dots> = rev (filter (\<lambda>e. event_key e = k) (rev evs))"
    by (simp only: sort_key_stable)
  also have "\<dots> = filter (\<lambda>e. event_key e = k) evs"
    by (simp add: rev_filter)
  finally show ?thesis .
qed

lemma filter_take_prefix: "\<exists>m. filter P (take n xs) = take m (filter P xs)"
proof (induction xs arbitrary: n)
  case Nil
  then show ?case by simp
next
  case (Cons x xs)
  show ?case
  proof (cases n)
    case 0
    have "filter P (take 0 (x # xs)) = take 0 (filter P (x # xs))" by simp
    with 0 show ?thesis by blast
  next
    case (Suc j)
    from Cons.IH [of j] obtain m where m: "filter P (take j xs) = take m (filter P xs)" ..
    show ?thesis
    proof (cases "P x")
      case True
      with m Suc have "filter P (take n (x # xs)) = take (Suc m) (filter P (x # xs))" by simp
      then show ?thesis ..
    next
      case False
      with m Suc have "filter P (take n (x # xs)) = take m (filter P (x # xs))" by simp
      then show ?thesis ..
    qed
  qed
qed

text \<open>
  C8.  When the sort returns, the events are in descending order of their normalized
  timestamp, they are the collected events, and the events of one timestamp stand in
  the order in which they were collected.  The 200 events shown are the first 200 of
  them: in descending order too, and those of one timestamp are the first so many of
  the collected events of that timestamp, in their order.
\<close>

theorem timeline_sorted_stable:
  "(sort_events evs = Inr timeline_events \<longrightarrow>
      sorted_wrt (\<lambda>a b. event_key b \<le> event_key a) timeline_events
      \<and> mset timeline_events = mset evs
      \<and> (\<forall>k. filter (\<lambda>e. event_key e = k) timeline_events = filter (\<lambda>e. event_key e = k) evs))
   \<and> (update_timeline env dbs = Inr shown \<longrightarrow>
        sorted_wrt (\<lambda>a b. event_key b \<le> event_key a) shown
        \<and> (\<forall>k. \<exists>m. filter (\<lambda>e. event_key e = k) shown
                    = take m (filter (\<lambda>e. event_key e = k) (collect_events env dbs))))"
proof (intro conjI impI)
  assume "sort_events evs = Inr timeline_events"
  then have result: "timeline_events = rev (sort_key event_key (rev evs))"
    by (auto simp: sort_events_def split: if_splits)
  show "sorted_wrt (\<lambda>a b. event_key b \<le> event_key a) timeline_events"
    unfolding result by (rule sort_events_sorted)
  show "mset timeline_events = mset evs"
    unfolding result by simp
  show "\<forall>k. filter (\<lambda>e. event_key e = k) timeline_events = filter (\<lambda>e. event_key e = k) evs"
    unfolding result by (simp only: sort_events_stable) simp
next
  assume "update_timeline env dbs = Inr shown"
  then have result: "shown = take 200 (rev (sort_key event_key (rev (collect_events env dbs))))"
    by (auto simp: update_timeline_def sort_events_def split: if_splits sum.splits)
  show "sorted_wrt (\<lambda>a b. event_key b \<le> event_key a) shown"
    unfolding result by (intro sorted_wrt_take sort_events_sorted)
  show "\<forall>k. \<exists>m. filter (\<lambda>e. event_key e = k) shown
                    = take m (filter (\<lambda>e. event_key e = k) (collect_events env dbs))"
  proof
    fix k
    from filter_take_prefix [of "\<lambda>e. event_key e = k" 200
        "rev (sort_key event_key (rev (collect_events env dbs)))"]
    obtain m where "filter (\<lambda>e. event_key e = k) shown
        = take m (filter (\<lambda>e. event_key e = k) (rev (sort_key event_key (rev (collect_events env dbs)))))"
      unfolding result ..
    then have "filter (\<lambda>e. event_key e = k) shown
        = take m (filter (\<lambda>e. event_key e = k) (collect_events env dbs))"
      by (simp only: sort_events_stable)
    then show "\<exists>m. filter (\<lambda>e. event_key e = k) shown
        = take m (filter (\<lambda>e. event_key e = k) (collect_events env dbs))" ..
  qed
qed

theorem timeline_sorted_stable_witness:
  "sort_events
     [(Naive 1700000000000000, ''Call: Incoming - 555'', ''Call Log''),
      (Naive 1700000100000000, ''Call: Missed - 777'', ''Call Log''),
      (Naive 1700000000000000, ''Calendar: Dentist'', ''Calendar'')]
   = Inr [(Naive 1700000100000000, ''Call: Missed - 777'', ''Call Log''),
          (Naive 1700000000000000, ''Call: Incoming - 555'', ''Call Log''),
          (Naive 1700000000000000, ''Calendar: Dentist'', ''Calendar'')]
   \<and> sorted_wrt (\<lambda>a b. event_key b \<le> event_key a)
        [(Naive 1700000100000000, ''Call: Missed - 777'', ''Call Log''),
         (Naive 1700000000000000, ''Call: Incoming - 555'', ''Call Log''),
         (Naive 1700000000000000, ''Calendar: Dentist'', ''Calendar'')]"
proof -
  have sorted_events: "sort_events
     [(Naive 1700000000000000, ''Call: Incoming - 555'', ''Call Log''),
      (Naive 1700000100000000, ''Call: Missed - 777'', ''Call Log''),
      (Naive 1700000000000000, ''Calendar: Dentist'', ''Calendar'')]
   = Inr [(Naive 1700000100000000, ''Call: Missed - 777'', ''Call Log''),
          (Naive 1700000000000000, ''Call: Incoming - 555'', ''Call Log''),
          (Naive 1700000000000000, ''Calendar: Dentist'', ''Calendar'')]"
    by code_simp
  then show ?thesis
    using timeline_sorted_stable
      [of "[(Naive 1700000000000000, ''Call: Incoming - 555'', ''Call Log''),
            (Naive 1700000100000000, ''Call: Missed - 777'', ''Call Log''),
            (Naive 1700000000000000, ''Calendar: Dentist'', ''Calendar'')]"
          "[(Naive 1700000100000000, ''Call: Missed - 777'', ''Call Log''),
            (Naive 1700000000000000, ''Call: Incoming - 555'', ''Call Log''),
            (Naive 1700000000000000, ''Calendar: Dentist'', ''Calendar'')]"]
    by blast
qed

section \<open>The export\<close>

lemma distinct_store_after: "distinct (map fst (store_after loads))"
proof -
  have "distinct (map fst dbs) \<Longrightarrow>
      distinct (map fst (foldl (\<lambda>dbs l. update_ui_after_load dbs (fst l) (fst (snd l)) (snd (snd l)))
        dbs loads))" for dbs
    by (induction loads arbitrary: dbs) (simp_all add: update_ui_after_load_def distinct_update)
  from this [of "[]"] show ?thesis
    by (simp add: store_after_def)
qed

lemma count_store_after:
  "map_of (store_after loads) name = Some info \<Longrightarrow> info_count info = length (info_data info)"
proof -
  have "(\<forall>name info. map_of dbs name = Some info \<longrightarrow> info_count info = length (info_data info)) \<Longrightarrow>
      map_of (foldl (\<lambda>dbs l. update_ui_after_load dbs (fst l) (fst (snd l)) (snd (snd l))) dbs loads)
        name = Some info \<Longrightarrow> info_count info = length (info_data info)" for dbs
  proof (induction loads arbitrary: dbs)
    case Nil
    then show ?case by simp
  next
    case (Cons l loads)
    have "\<forall>name info. map_of (update_ui_after_load dbs (fst l) (fst (snd l)) (snd (snd l))) name
        = Some info \<longrightarrow> info_count info = length (info_data info)"
      using Cons.prems(1) by (auto simp: update_ui_after_load_def update_conv')
    from Cons.IH [OF this] Cons.prems(2) show ?case by simp
  qed
  from this [of "[]"] show "map_of (store_after loads) name = Some info \<Longrightarrow>
      info_count info = length (info_data info)"
    by (simp add: store_after_def)
qed

lemma store_after_last:
  "map_of (store_after (loads @ [(name, data, ty)])) name
     = Some \<lparr>info_data = data, info_type = ty, info_count = length data\<rparr>"
  by (simp add: store_after_def update_ui_after_load_def update_conv')

lemma map_of_export_step:
  "distinct (map fst dbs) \<Longrightarrow>
     map_of (foldl (\<lambda>out entry.
                     AList.update (fst entry)
                       \<lparr>record_count = info_count (snd entry),
                        data_type = info_type (snd entry),
                        records = take 500 (info_data (snd entry))\<rparr> out) out dbs) name
     = (case map_of dbs name of
          Some info \<Rightarrow> Some \<lparr>record_count = info_count info, data_type = info_type info,
                              records = take 500 (info_data info)\<rparr>
        | None \<Rightarrow> map_of out name)"
proof (induction dbs arbitrary: out)
  case Nil
  then show ?case by simp
next
  case (Cons entry dbs)
  from Cons.prems have rest: "distinct (map fst dbs)" and fresh: "fst entry \<notin> fst ` set dbs"
    by auto
  from fresh have absent: "map_of dbs (fst entry) = None"
    by (simp add: map_of_eq_None_iff)
  have step: "map_of (foldl (\<lambda>out entry.
                     AList.update (fst entry)
                       \<lparr>record_count = info_count (snd entry),
                        data_type = info_type (snd entry),
                        records = take 500 (info_data (snd entry))\<rparr> out) out (entry # dbs)) name
     = (case map_of dbs name of
          Some info \<Rightarrow> Some \<lparr>record_count = info_count info, data_type = info_type info,
                              records = take 500 (info_data info)\<rparr>
        | None \<Rightarrow> map_of (AList.update (fst entry)
                       \<lparr>record_count = info_count (snd entry),
                        data_type = info_type (snd entry),
                        records = take 500 (info_data (snd entry))\<rparr> out) name)"
    by (simp add: Cons.IH [OF rest])
  show ?case
  proof (cases "name = fst entry")
    case True
    have "map_of (entry # dbs) (fst entry) = Some (snd entry)"
      by (cases entry) simp
    with True absent show ?thesis
      unfolding step by (simp add: update_conv' split: option.splits)
  next
    case False
    then have "map_of (entry # dbs) name = map_of dbs name"
      by (cases entry) simp
    with False show ?thesis
      unfolding step by (simp add: update_conv' split: option.splits)
  qed
qed

text \<open>
  C9.  In the store after any sequence of loads, the export holds for every loaded
  name one entry (none is rejected), whose records are the first 500 of the dataset,
  so \<open>min 500 (length data)\<close> many, and whose \<^verbatim>\<open>record_count\<close> is the length of the whole
  dataset; the object handed to the JSON writer holds these entries.
\<close>

theorem export_limits:
  "map_of (export_databases (store_after loads)) name =
     map_option
       (\<lambda>info. \<lparr>record_count = length (info_data info), data_type = info_type info,
                 records = take 500 (info_data info)\<rparr>)
       (map_of (store_after loads) name)
   \<and> length (take 500 (info_data info)) = min 500 (length (info_data info))
   \<and> map_of (store_after (loads @ [(name, data, ty)])) name
       = Some \<lparr>info_data = data, info_type = ty, info_count = length data\<rparr>
   \<and> (store_after loads \<noteq> [] \<longrightarrow>
        map_option databases (export_data now (store_after loads))
          = Some (export_databases (store_after loads)))"
proof (intro conjI impI)
  show "map_of (export_databases (store_after loads)) name =
     map_option
       (\<lambda>info. \<lparr>record_count = length (info_data info), data_type = info_type info,
                 records = take 500 (info_data info)\<rparr>)
       (map_of (store_after loads) name)"
  proof (cases "map_of (store_after loads) name")
    case None
    then show ?thesis
      unfolding export_databases_def
      by (simp add: map_of_export_step [OF distinct_store_after])
  next
    case (Some info)
    then have "info_count info = length (info_data info)"
      by (rule count_store_after)
    with Some show ?thesis
      unfolding export_databases_def
      by (simp add: map_of_export_step [OF distinct_store_after])
  qed
  show "length (take 500 (info_data info)) = min 500 (length (info_data info))"
    by (simp add: min.commute)
  show "map_of (store_after (loads @ [(name, data, ty)])) name
       = Some \<lparr>info_data = data, info_type = ty, info_count = length data\<rparr>"
    by (rule store_after_last)
  show "map_option databases (export_data now (store_after loads))
          = Some (export_databases (store_after loads))"
    if "store_after loads \<noteq> []"
    using that by (simp add: export_data_def)
qed

theorem export_limits_witness:
  "map_option (\<lambda>e. (record_count e, length (records e)))
     (map_of
        (export_databases
           (store_after [(''Messages'', replicate 600 [(''body'', PStr ''hi'')], ''messages'')]))
        ''Messages'')
   = Some (600, 500)"
proof -
  have stored: "map_of (store_after ([] @ [(''Messages'', replicate 600 [(''body'', PStr ''hi'')], ''messages'')]))
      ''Messages''
    = Some \<lparr>info_data = replicate 600 [(''body'', PStr ''hi'')], info_type = ''messages'',
             info_count = length (replicate 600 [(''body'', PStr ''hi'')])\<rparr>"
    using export_limits [of "[]" "''Messages''" _ "replicate 600 [(''body'', PStr ''hi'')]" "''messages''"]
    by blast
  have "map_of (export_databases
           (store_after [(''Messages'', replicate 600 [(''body'', PStr ''hi'')], ''messages'')]))
        ''Messages''
      = map_option
       (\<lambda>info. \<lparr>record_count = length (info_data info), data_type = info_type info,
                 records = take 500 (info_data info)\<rparr>)
       (map_of (store_after [(''Messages'', replicate 600 [(''body'', PStr ''hi'')], ''messages'')])
          ''Messages'')"
    using export_limits [of "[(''Messages'', replicate 600 [(''body'', PStr ''hi'')], ''messages'')]"
        "''Messages''"]
    by blast
  with stored show ?thesis
    by simp
qed

end
